theory Spec2Isabelle
  imports Main "HOL-Library.Multiset"
begin

section \<open>Data model\<close>

text \<open>
  A track descriptor is the dictionary \<^verbatim>\<open>{'name': ..., 'artists': [...]}\<close> that
  \<^verbatim>\<open>get_spotify_tracks\<close> builds. The progress dictionary written by
  \<^verbatim>\<open>save_progress\<close> has the three keys \<^verbatim>\<open>playlist_id\<close>,
  \<^verbatim>\<open>processed_tracks\<close> and \<^verbatim>\<open>remaining_tracks\<close>.
\<close>

record track =
  name :: string
  artists :: "string list"

record progress =
  playlist_id :: string
  processed_tracks :: "string list"
  remaining_tracks :: "track list"

text \<open>
  Exceptions of the program. \<^verbatim>\<open>HttpError\<close> carries the text that \<^verbatim>\<open>str(e)\<close>
  yields; everything else that \<^verbatim>\<open>except Exception\<close> would catch is one of the other
  constructors.
\<close>

datatype exn =
    HttpError string
  | ValueError string
  | KeyError string
  | OverflowError string
  | JSONDecodeError
  | OtherError string

text \<open>The result of a call into an external client: a value, or a raised exception.\<close>

datatype 'a outcome = Returns 'a | Raises exn

section \<open>The progress file\<close>

text \<open>
  The file \<^verbatim>\<open>playlist_progress.json\<close> either does not exist (\<open>None\<close>) or has a
  content. \<open>Json r\<close> is the complete text that \<^verbatim>\<open>json.dump\<close> writes for the
  dictionary \<open>r\<close>; \<^verbatim>\<open>json.load\<close> of it gives \<open>r\<close> back (strings and lists of
  strings are represented exactly by JSON). \<open>Partial\<close> is the file as
  \<^verbatim>\<open>open(..., 'w')\<close> leaves it before \<^verbatim>\<open>json.dump\<close> has finished: truncated, with
  no complete JSON document in it, on which \<^verbatim>\<open>json.load\<close> raises.
\<close>

datatype content = Partial | Json progress

text \<open>
  Calls to the external services and to \<^verbatim>\<open>sleep\<close>, in the order the program makes
  them. Console output is not modelled.
\<close>

datatype event =
    Search_list string
  | Playlist_items_insert string string
  | Playlists_list string
  | Playlists_insert string string string
  | Sleep int

text \<open>
  The world outside the program: the progress file, how many search and insert requests
  the destination has answered so far, and the log of calls.
\<close>

record world =
  progress_file :: "content option"
  search_calls :: nat
  insert_calls :: nat
  calls :: "event list"

text \<open>
  \<^verbatim>\<open>open('playlist_progress.json', 'w')\<close> creates the file or truncates it to length
  zero; \<^verbatim>\<open>json.dump\<close> followed by leaving the \<^verbatim>\<open>with\<close> block writes the whole
  document. \<^verbatim>\<open>save_progress\<close> is one after the other.
\<close>

definition open_w :: "'a world_scheme \<Rightarrow> 'a world_scheme" where
  "open_w w = w\<lparr>progress_file := Some Partial\<rparr>"

definition json_dump :: "progress \<Rightarrow> 'a world_scheme \<Rightarrow> 'a world_scheme" where
  "json_dump r w = w\<lparr>progress_file := Some (Json r)\<rparr>"

definition save_progress ::
  "string \<Rightarrow> string list \<Rightarrow> track list \<Rightarrow> 'a world_scheme \<Rightarrow> 'a world_scheme" where
  "save_progress pid processed_names remaining_list w =
     json_dump \<lparr>playlist_id = pid, processed_tracks = processed_names,
                 remaining_tracks = remaining_list\<rparr> (open_w w)"

text \<open>
  The worlds in which a crash during \<^verbatim>\<open>save_progress\<close> can leave the file: before
  the \<^verbatim>\<open>open\<close>, between the \<^verbatim>\<open>open\<close> and the end of the write, and after it.
\<close>

definition save_progress_crash_points ::
  "string \<Rightarrow> string list \<Rightarrow> track list \<Rightarrow> 'a world_scheme \<Rightarrow> 'a world_scheme list" where
  "save_progress_crash_points pid processed_names remaining_list w =
     [w, open_w w, save_progress pid processed_names remaining_list w]"

definition load_progress :: "'a world_scheme \<Rightarrow> exn + progress option" where
  "load_progress w =
     (case progress_file w of
        None \<Rightarrow> Inr None
      | Some Partial \<Rightarrow> Inl JSONDecodeError
      | Some (Json r) \<Rightarrow> Inr (Some r))"

text \<open>
  Lines 239-240: \<^verbatim>\<open>if Path(...).exists(): Path(...).unlink()\<close>.
\<close>

definition unlink_progress :: "'a world_scheme \<Rightarrow> 'a world_scheme" where
  "unlink_progress w = (if progress_file w \<noteq> None then w\<lparr>progress_file := None\<rparr> else w)"

text \<open>The operations that change the store, for histories of them.\<close>

datatype store_op = Save string "string list" "track list" | Clear

fun apply_store_op :: "store_op \<Rightarrow> 'a world_scheme \<Rightarrow> 'a world_scheme" where
  "apply_store_op (Save pid ps rs) w = save_progress pid ps rs w"
| "apply_store_op Clear w = unlink_progress w"

fun apply_store_ops :: "store_op list \<Rightarrow> 'a world_scheme \<Rightarrow> 'a world_scheme" where
  "apply_store_ops [] w = w"
| "apply_store_ops (x # xs) w = apply_store_ops xs (apply_store_op x w)"

section \<open>The destination client\<close>

text \<open>
  The YouTube client is external. What a request returns may depend on how many requests
  of its kind came before it, so that the n-th append call can fail while others succeed.
  A search response is reduced to the video ids of its items (the search is restricted to
  \<^verbatim>\<open>type="video"\<close>, so every item carries one); a playlist resource to its id.
\<close>

record playlist =
  ident :: string

record youtube =
  search_list :: "nat \<Rightarrow> string \<Rightarrow> string list outcome"
  playlist_items_insert :: "nat \<Rightarrow> string \<Rightarrow> string \<Rightarrow> unit outcome"
  playlists_list :: "string \<Rightarrow> playlist list outcome"
  playlists_insert :: "string \<Rightarrow> string \<Rightarrow> string \<Rightarrow> playlist outcome"

section \<open>Strings\<close>

text \<open>\<^verbatim>\<open>sep.join(xs)\<close> and the substring test \<^verbatim>\<open>needle in hay\<close>.\<close>

fun join :: "string \<Rightarrow> string list \<Rightarrow> string" where
  "join sep [] = []"
| "join sep [x] = x"
| "join sep (x # y # ys) = x @ sep @ join sep (y # ys)"

fun starts_with :: "string \<Rightarrow> string \<Rightarrow> bool" where
  "starts_with [] hay = True"
| "starts_with (c # cs) [] = False"
| "starts_with (c # cs) (h # hs) = (c = h \<and> starts_with cs hs)"

fun contains :: "string \<Rightarrow> string \<Rightarrow> bool" where
  "contains needle [] = (needle = [])"
| "contains needle (h # hs) = (starts_with needle (h # hs) \<or> contains needle hs)"

section \<open>The transfer loop\<close>

text \<open>
  The local variables \<^verbatim>\<open>processed_tracks\<close> and \<^verbatim>\<open>remaining_tracks\<close> of
  \<^verbatim>\<open>search_and_add_to_playlist\<close>, on top of the world.
\<close>

record run = world +
  processed :: "string list"
  remaining :: "track list"

text \<open>
  \<^verbatim>\<open>time.sleep\<close> raises \<^verbatim>\<open>ValueError\<close> for a negative length, and
  \<^verbatim>\<open>OverflowError\<close> for a length whose count of nanoseconds does not fit 64 bits, which
  is every whole number of seconds above 9223372036. A shorter length that the operating
  system refuses, because the deadline lies beyond the range of its clock, is a failure of
  the environment, as a failed write is, and is not modelled.
\<close>

definition sleep :: "int \<Rightarrow> run \<Rightarrow> exn + run" where
  "sleep secs s =
     (if secs < 0 then Inl (ValueError ''sleep length must be non-negative'')
      else if 9223372036 < secs
      then Inl (OverflowError ''timestamp too large to convert to C _PyTime_t'')
      else Inr (s\<lparr>calls := calls s @ [Sleep secs]\<rparr>))"

text \<open>
  What a call of \<^verbatim>\<open>sleep\<close> adds to the log of calls: an entry when it sleeps, nothing
  when it raises.
\<close>

definition slept :: "int \<Rightarrow> event list" where
  "slept secs = (if 0 \<le> secs \<and> secs \<le> 9223372036 then [Sleep secs] else [])"

definition query_of :: "track \<Rightarrow> string" where
  "query_of t = name t @ '' '' @ join '' '' (artists t)"

text \<open>
  The body of the \<^verbatim>\<open>try\<close> block, lines 182-215. \<open>Inr ()\<close> is one of its two
  \<^verbatim>\<open>break\<close>s; \<open>Inl e\<close> is the exception \<open>e\<close> leaving the block, with the state as it
  was when \<open>e\<close> was raised. \<^verbatim>\<open>list.remove\<close> takes out the first equal element and
  raises \<^verbatim>\<open>ValueError\<close> when there is none.
\<close>

definition try_body :: "youtube \<Rightarrow> string \<Rightarrow> int \<Rightarrow> track \<Rightarrow> run \<Rightarrow> (exn + unit) \<times> run" where
  "try_body yt pid delay t s =
     (let query = query_of t;
          s1 = s\<lparr>search_calls := Suc (search_calls s), calls := calls s @ [Search_list query]\<rparr>
      in case search_list yt (search_calls s) query of
           Raises e \<Rightarrow> (Inl e, s1)
         | Returns items \<Rightarrow>
             (case items of
                [] \<Rightarrow> (Inr (), s1)
              | video_id # _ \<Rightarrow>
                  (let s2 = s1\<lparr>insert_calls := Suc (insert_calls s1),
                                calls := calls s1 @ [Playlist_items_insert pid video_id]\<rparr>
                   in case playlist_items_insert yt (insert_calls s1) pid video_id of
                        Raises e \<Rightarrow> (Inl e, s2)
                      | Returns _ \<Rightarrow>
                          (let s3 = s2\<lparr>processed := processed s2 @ [name t]\<rparr>
                           in if t \<in> set (remaining s3)
                              then (let s4 = s3\<lparr>remaining := remove1 t (remaining s3)\<rparr>;
                                        s5 = save_progress pid (processed s4) (remaining s4) s4
                                    in case sleep delay s5 of
                                         Inl e \<Rightarrow> (Inl e, s5)
                                       | Inr s6 \<Rightarrow> (Inr (), s6))
                              else (Inl (ValueError ''list.remove(x): x not in list''), s3)))))"

text \<open>
  How one pass through the body of the \<^verbatim>\<open>while\<close> loop ends: with a \<^verbatim>\<open>break\<close>,
  with the \<^verbatim>\<open>return\<close> of line 223, with an exception that leaves the function (the
  \<^verbatim>\<open>sleep\<close> of line 230 is outside every \<^verbatim>\<open>try\<close>), or at the end of the body
  with a new value of \<^verbatim>\<open>retry_count\<close>.
\<close>

datatype pass = Break | Return | Raise exn | Again int

text \<open>The \<^verbatim>\<open>except HttpError\<close> clause, lines 217-230.\<close>

definition except_HttpError ::
  "string \<Rightarrow> int \<Rightarrow> int \<Rightarrow> string \<Rightarrow> int \<Rightarrow> run \<Rightarrow> pass \<times> run" where
  "except_HttpError pid max_retries delay e retry_count s =
     (if contains ''quotaExceeded'' e
      then (Return, save_progress pid (processed s) (remaining s) s)
      else (let retry_count' = retry_count + 1
            in if retry_count' = max_retries then (Again retry_count', s)
               else (case sleep (delay * 2) s of
                       Inl e' \<Rightarrow> (Raise e', s)
                     | Inr s' \<Rightarrow> (Again retry_count', s'))))"

text \<open>One pass: the \<^verbatim>\<open>try\<close> block and its two \<^verbatim>\<open>except\<close> clauses.\<close>

definition while_body ::
  "youtube \<Rightarrow> string \<Rightarrow> int \<Rightarrow> int \<Rightarrow> track \<Rightarrow> int \<Rightarrow> run \<Rightarrow> pass \<times> run" where
  "while_body yt pid max_retries delay t retry_count s =
     (case try_body yt pid delay t s of
        (Inr _, s') \<Rightarrow> (Break, s')
      | (Inl (HttpError e), s') \<Rightarrow> except_HttpError pid max_retries delay e retry_count s'
      | (Inl _, s') \<Rightarrow> (Break, s'))"

text \<open>
  A pass that reaches the end of the body has added one to \<^verbatim>\<open>retry_count\<close>, which is
  why the loop below ends.
\<close>

lemma while_body_Again:
  "while_body yt pid max_retries delay t retry_count s = (Again retry_count', s')
   \<Longrightarrow> retry_count' = retry_count + 1"
  by (auto simp: while_body_def except_HttpError_def Let_def
           split: prod.splits sum.splits exn.splits if_splits)

text \<open>
  The \<^verbatim>\<open>while retry_count < max_retries\<close> loop for one track. The flag of the result
  says how the loop was left: \<open>Break\<close> when the \<^verbatim>\<open>for\<close> loop goes on with the next
  track (a \<^verbatim>\<open>break\<close>, or the condition became false), \<open>Return\<close> and \<open>Raise\<close> when
  the function is left.
\<close>

function while_retry ::
  "youtube \<Rightarrow> string \<Rightarrow> int \<Rightarrow> int \<Rightarrow> track \<Rightarrow> int \<Rightarrow> run \<Rightarrow> pass \<times> run" where
  "while_retry yt pid max_retries delay t retry_count s =
     (if retry_count < max_retries
      then (case while_body yt pid max_retries delay t retry_count s of
              (Again retry_count', s') \<Rightarrow> while_retry yt pid max_retries delay t retry_count' s'
            | (p, s') \<Rightarrow> (p, s'))
      else (Break, s))"
  by pat_completeness auto
termination
  by (relation "measure (\<lambda>(yt, pid, max_retries, delay, t, retry_count, s).
                   nat (max_retries - retry_count))")
     (auto dest!: while_body_Again [OF sym])

declare while_retry.simps [simp del]

text \<open>
  The \<^verbatim>\<open>for track in remaining_tracks[:]\<close> loop over the snapshot taken at its start,
  with \<^verbatim>\<open>retry_count = 0\<close> for each track.
\<close>

fun for_tracks ::
  "youtube \<Rightarrow> string \<Rightarrow> int \<Rightarrow> int \<Rightarrow> track list \<Rightarrow> run \<Rightarrow> pass \<times> run" where
  "for_tracks yt pid max_retries delay [] s = (Break, s)"
| "for_tracks yt pid max_retries delay (t # ts) s =
     (case while_retry yt pid max_retries delay t 0 s of
        (Break, s') \<Rightarrow> for_tracks yt pid max_retries delay ts s'
      | (p, s') \<Rightarrow> (p, s'))"

text \<open>
  Lines 167-176: the local lists at the start of the loop, from the loaded progress when it
  is for this playlist, otherwise empty and a copy of \<^verbatim>\<open>tracks\<close>.
\<close>

definition start_run :: "string \<Rightarrow> track list \<Rightarrow> progress option \<Rightarrow> world \<Rightarrow> run" where
  "start_run pid tracks loaded w =
     (case loaded of
        Some r \<Rightarrow>
          (if playlist_id r = pid
           then world.extend w \<lparr>processed = processed_tracks r, remaining = remaining_tracks r\<rparr>
           else world.extend w \<lparr>processed = [], remaining = tracks\<rparr>)
      | None \<Rightarrow> world.extend w \<lparr>processed = [], remaining = tracks\<rparr>)"

text \<open>Lines 236-240, after the \<^verbatim>\<open>for\<close> loop.\<close>

definition finish :: "run \<Rightarrow> run" where
  "finish s = (if remaining s = [] then unlink_progress s else s)"

text \<open>
  Lines 178-240: the loop over the snapshot of \<^verbatim>\<open>remaining_tracks\<close> and the cleanup
  after it. \<open>Inr s\<close> is a normal return, with the final values of the local lists and the
  world in \<open>s\<close>; \<open>Inl e\<close> is the exception \<open>e\<close> leaving the function.
\<close>

definition run_loop :: "youtube \<Rightarrow> string \<Rightarrow> int \<Rightarrow> int \<Rightarrow> run \<Rightarrow> exn + run" where
  "run_loop yt pid max_retries delay s0 =
     (case for_tracks yt pid max_retries delay (remaining s0) s0 of
        (Return, s1) \<Rightarrow> Inr s1
      | (Raise e, s1) \<Rightarrow> Inl e
      | (_, s1) \<Rightarrow> Inr (finish s1))"

text \<open>
  \<^verbatim>\<open>search_and_add_to_playlist\<close>; \<^verbatim>\<open>load_progress\<close> is called outside every
  \<^verbatim>\<open>try\<close>, so what it raises leaves the function.
\<close>

definition search_and_add_to_playlist ::
  "youtube \<Rightarrow> string \<Rightarrow> track list \<Rightarrow> int \<Rightarrow> int \<Rightarrow> world \<Rightarrow> exn + run" where
  "search_and_add_to_playlist yt pid tracks max_retries delay w =
     (case load_progress w of
        Inl e \<Rightarrow> Inl e
      | Inr loaded \<Rightarrow> run_loop yt pid max_retries delay (start_run pid tracks loaded w))"

text \<open>Whether the run was left through the \<^verbatim>\<open>return\<close> of line 223 (the quota stop).\<close>

definition quota_stop ::
  "youtube \<Rightarrow> string \<Rightarrow> track list \<Rightarrow> int \<Rightarrow> int \<Rightarrow> world \<Rightarrow> bool" where
  "quota_stop yt pid tracks max_retries delay w =
     (case load_progress w of
        Inl e \<Rightarrow> False
      | Inr loaded \<Rightarrow>
          (let s0 = start_run pid tracks loaded w
           in fst (for_tracks yt pid max_retries delay (remaining s0) s0) = Return))"

text \<open>
  The destination answers every track of the list with a hit and accepts its append, the
  first search being request number \<open>ns\<close> and the first append request number \<open>ni\<close>.
\<close>

fun adds_all :: "youtube \<Rightarrow> string \<Rightarrow> track list \<Rightarrow> nat \<Rightarrow> nat \<Rightarrow> bool" where
  "adds_all yt pid [] ns ni = True"
| "adds_all yt pid (t # ts) ns ni =
     (case search_list yt ns (query_of t) of
        Returns (video_id # _) \<Rightarrow>
          playlist_items_insert yt ni pid video_id = Returns ()
          \<and> adds_all yt pid ts (Suc ns) (Suc ni)
      | _ \<Rightarrow> False)"

section \<open>The playlist resolver\<close>

text \<open>Python's truth value of an optional string: \<^verbatim>\<open>None\<close> and \<^verbatim>\<open>""\<close> are false.\<close>

fun truthy :: "string option \<Rightarrow> bool" where
  "truthy None = False"
| "truthy (Some x) = (x \<noteq> [])"

text \<open>
  \<^verbatim>\<open>create_or_get_youtube_playlist\<close>. The \<^verbatim>\<open>except HttpError\<close> clause prints and
  raises the exception again; the \<^verbatim>\<open>ValueError\<close> of line 137 is not an
  \<^verbatim>\<open>HttpError\<close> and passes through it.
\<close>

definition create_or_get_youtube_playlist ::
  "youtube \<Rightarrow> string option \<Rightarrow> string option \<Rightarrow> string \<Rightarrow> 'a world_scheme
   \<Rightarrow> (exn + playlist) \<times> 'a world_scheme" where
  "create_or_get_youtube_playlist yt playlist_name playlist_ident description w =
     (if truthy playlist_ident
      then (let i = the playlist_ident;
                w1 = w\<lparr>calls := calls w @ [Playlists_list i]\<rparr>
            in case playlists_list yt i of
                 Raises e \<Rightarrow> (Inl e, w1)
               | Returns found \<Rightarrow>
                   (case found of
                      [] \<Rightarrow> (Inl (ValueError (''No playlist found with ID: '' @ i)), w1)
                    | p # _ \<Rightarrow> (Inr p, w1)))
      else if truthy playlist_name
      then (let n = the playlist_name;
                w1 = w\<lparr>calls := calls w @ [Playlists_insert n description ''private'']\<rparr>
            in case playlists_insert yt n description ''private'' of
                 Raises e \<Rightarrow> (Inl e, w1)
               | Returns p \<Rightarrow> (Inr p, w1))
      else (Inl (ValueError ''Either playlist_name or playlist_id must be provided''), w))"

section \<open>The track extractor\<close>

text \<open>
  A raw item of a page, as far as the program reads it: \<^verbatim>\<open>item['track']\<close> may be
  \<^verbatim>\<open>null\<close>, and the keys \<^verbatim>\<open>name\<close> and \<^verbatim>\<open>artists\<close> of a track and
  \<^verbatim>\<open>name\<close> of an artist may be missing (\<open>None\<close>).
\<close>

record raw_track =
  raw_name :: "string option"
  raw_artists :: "string option list option"

record raw_item =
  item_track :: "raw_track option"

text \<open>
  A page of results: its items and its \<^verbatim>\<open>next\<close> link, which names the collection
  (\<open>None\<close> for the saved tracks, \<open>Some\<close> of a playlist id) and the offset of the next
  page.
\<close>

record page =
  items :: "raw_item list"
  next_link :: "(string option \<times> nat) option"

text \<open>
  The Spotify client: \<^verbatim>\<open>current_user_saved_tracks(offset=...)\<close>,
  \<^verbatim>\<open>playlist_tracks(playlist_id)\<close> and \<^verbatim>\<open>next(result)\<close>, which gives
  \<^verbatim>\<open>None\<close> when the result has no next link.
\<close>

record spotify =
  current_user_saved_tracks :: "nat \<Rightarrow> page outcome"
  playlist_tracks :: "string option \<Rightarrow> page outcome"
  next_page :: "page \<Rightarrow> page option outcome"

text \<open>Lines 91-94: the descriptor of a track, or the \<^verbatim>\<open>KeyError\<close> of a missing key.\<close>

definition descriptor :: "raw_track \<Rightarrow> exn + track" where
  "descriptor tr =
     (case raw_name tr of
        None \<Rightarrow> Inl (KeyError ''name'')
      | Some n \<Rightarrow>
          (case raw_artists tr of
             None \<Rightarrow> Inl (KeyError ''artists'')
           | Some as \<Rightarrow>
               (if None \<in> set as then Inl (KeyError ''name'')
                else Inr \<lparr>name = n, artists = map the as\<rparr>)))"

text \<open>Lines 86-97: the \<^verbatim>\<open>for item in results['items']\<close> loop.\<close>

fun for_items :: "raw_item list \<Rightarrow> track list \<Rightarrow> track list" where
  "for_items [] tracks = tracks"
| "for_items (item # rest) tracks =
     (case item_track item of
        None \<Rightarrow> for_items rest tracks
      | Some tr \<Rightarrow>
          (case descriptor tr of
             Inr d \<Rightarrow> for_items rest (tracks @ [d])
           | Inl e \<Rightarrow> for_items rest tracks))"

text \<open>
  Lines 85-105: the \<^verbatim>\<open>while results\<close> loop. Nothing bounds the number of pages, so
  the loop need not end: \<open>None\<close> is the run that does not return.
\<close>

partial_function (option) while_results ::
  "spotify \<Rightarrow> bool \<Rightarrow> page option \<Rightarrow> track list \<Rightarrow> (exn + track list) option" where
  "while_results sp liked_songs results tracks =
     (case results of
        None \<Rightarrow> Some (Inr tracks)
      | Some pg \<Rightarrow>
          (let tracks' = for_items (items pg) tracks
           in if next_link pg \<noteq> None
              then (if liked_songs
                    then (case current_user_saved_tracks sp (length tracks') of
                            Raises e \<Rightarrow> Some (Inl e)
                          | Returns r \<Rightarrow> while_results sp liked_songs (Some r) tracks')
                    else (case next_page sp pg of
                            Raises e \<Rightarrow> Some (Inl e)
                          | Returns r \<Rightarrow> while_results sp liked_songs r tracks'))
              else while_results sp liked_songs None tracks'))"

declare while_results.simps [code]

definition get_spotify_tracks ::
  "spotify \<Rightarrow> string option \<Rightarrow> bool \<Rightarrow> (exn + track list) option" where
  "get_spotify_tracks sp playlist_ident liked_songs =
     (case (if liked_songs then current_user_saved_tracks sp 0
            else playlist_tracks sp playlist_ident) of
        Raises e \<Rightarrow> Some (Inl e)
      | Returns r \<Rightarrow> while_results sp liked_songs (Some r) [])"

text \<open>
  The source service over a library of saved tracks and a table of playlists: a request
  at an offset is answered with the next \<open>limit\<close> items from there and, when items are
  left after them, the link to the following page. The client asks for 20 saved tracks
  and for 100 playlist tracks at a time, its defaults, which the program does not change.
\<close>

definition serve :: "nat \<Rightarrow> string option \<Rightarrow> raw_item list \<Rightarrow> nat \<Rightarrow> page" where
  "serve limit coll xs offset =
     \<lparr>items = take limit (drop offset xs),
      next_link = (if offset + limit < length xs then Some (coll, offset + limit) else None)\<rparr>"

definition collection ::
  "raw_item list \<Rightarrow> (string \<Rightarrow> raw_item list option) \<Rightarrow> string option \<Rightarrow> raw_item list outcome" where
  "collection saved playlists coll =
     (case coll of
        None \<Rightarrow> Returns saved
      | Some pid \<Rightarrow>
          (case playlists pid of
             None \<Rightarrow> Raises (OtherError ''SpotifyException: 404'')
           | Some xs \<Rightarrow> Returns xs))"

definition limit_of :: "string option \<Rightarrow> nat" where
  "limit_of coll = (case coll of None \<Rightarrow> 20 | Some pid \<Rightarrow> 100)"

definition request ::
  "raw_item list \<Rightarrow> (string \<Rightarrow> raw_item list option) \<Rightarrow> string option \<Rightarrow> nat \<Rightarrow> page outcome" where
  "request saved playlists coll offset =
     (case collection saved playlists coll of
        Raises e \<Rightarrow> Raises e
      | Returns xs \<Rightarrow> Returns (serve (limit_of coll) coll xs offset))"

definition spotify_client :: "raw_item list \<Rightarrow> (string \<Rightarrow> raw_item list option) \<Rightarrow> spotify" where
  "spotify_client saved playlists =
     \<lparr>current_user_saved_tracks = (\<lambda>offset. request saved playlists None offset),
      playlist_tracks =
        (\<lambda>playlist_ident.
           case playlist_ident of
             None \<Rightarrow> Raises (OtherError ''SpotifyException: 404'')
           | Some pid \<Rightarrow> request saved playlists (Some pid) 0),
      next_page =
        (\<lambda>pg. case next_link pg of
                 None \<Rightarrow> Returns None
               | Some (coll, offset) \<Rightarrow>
                   (case request saved playlists coll offset of
                      Raises e \<Rightarrow> Raises e
                    | Returns r \<Rightarrow> Returns (Some r)))\<rparr>"

section \<open>The entry point\<close>

text \<open>
  \<^verbatim>\<open>transfer_playlist\<close>, with the two clients given. The result is \<open>None\<close> when the
  extraction does not return. \<^verbatim>\<open>search_and_add_to_playlist\<close> is called with its
  defaults, \<^verbatim>\<open>max_retries = 3\<close> and \<^verbatim>\<open>delay = 2\<close>.
\<close>

definition transfer_playlist ::
  "youtube \<Rightarrow> spotify \<Rightarrow> string option \<Rightarrow> string option \<Rightarrow> string option \<Rightarrow> bool \<Rightarrow> world
   \<Rightarrow> (exn + run) option" where
  "transfer_playlist yt sp spotify_playlist_id youtube_playlist_name youtube_playlist_id
     spotify_liked_songs w =
     (if \<not> truthy youtube_playlist_name \<and> \<not> truthy youtube_playlist_id
      then Some (Inl (ValueError
             ''Either youtube_playlist_name or youtube_playlist_id must be provided''))
      else if \<not> truthy spotify_playlist_id \<and> \<not> spotify_liked_songs
      then Some (Inl (ValueError
             ''Either spotify_playlist_id must be provided or spotify_liked_songs must be True''))
      else (case load_progress w of
              Inl e \<Rightarrow> Some (Inl e)
            | Inr (Some r) \<Rightarrow>
                Some (search_and_add_to_playlist yt (playlist_id r) (remaining_tracks r) 3 2 w)
            | Inr None \<Rightarrow>
                (case get_spotify_tracks sp spotify_playlist_id spotify_liked_songs of
                   None \<Rightarrow> None
                 | Some (Inl e) \<Rightarrow> Some (Inl e)
                 | Some (Inr tracks) \<Rightarrow>
                     (case create_or_get_youtube_playlist yt youtube_playlist_name
                             youtube_playlist_id ''Imported from Spotify'' w of
                        (Inl e, w1) \<Rightarrow> Some (Inl e)
                      | (Inr pl, w1) \<Rightarrow>
                          Some (search_and_add_to_playlist yt (ident pl) tracks 3 2 w1)))))"

section \<open>Concrete inputs\<close>

definition ex_track_a :: track where
  "ex_track_a = \<lparr>name = ''Intro'', artists = [''Ann'', ''Bob'']\<rparr>"

definition ex_track_b :: track where
  "ex_track_b = \<lparr>name = ''Blue'', artists = [''Cy'']\<rparr>"

definition ex_world :: world where
  "ex_world = \<lparr>progress_file = None, search_calls = 0, insert_calls = 0, calls = []\<rparr>"

definition ex_old_progress :: progress where
  "ex_old_progress =
     \<lparr>playlist_id = ''OLD'', processed_tracks = [''Intro''], remaining_tracks = [ex_track_b]\<rparr>"

definition ex_run :: run where
  "ex_run =
     \<lparr>progress_file = None, search_calls = 0, insert_calls = 0, calls = [],
      processed = [], remaining = [ex_track_a, ex_track_b]\<rparr>"

text \<open>A destination that finds nothing.\<close>

definition ex_yt_no_hits :: youtube where
  "ex_yt_no_hits =
     \<lparr>search_list = (\<lambda>n q. Returns []),
      playlist_items_insert = (\<lambda>n pid v. Returns ()),
      playlists_list = (\<lambda>i. Returns []),
      playlists_insert = (\<lambda>title description privacy. Returns \<lparr>ident = ''NEW''\<rparr>)\<rparr>"


text \<open>
  A destination that finds a video for every query and whose third append call (number 2,
  counting from 0) signals that the quota is used up; it knows the playlist \<open>OLD\<close>.
\<close>

definition ex_yt_quota :: youtube where
  "ex_yt_quota =
     \<lparr>search_list = (\<lambda>n q. Returns [''vid'']),
      playlist_items_insert =
        (\<lambda>n pid v. if n = 2 then Raises (HttpError ''HttpError 403 quotaExceeded'')
                    else Returns ()),
      playlists_list = (\<lambda>i. if i = ''OLD'' then Returns [\<lparr>ident = ''OLD''\<rparr>] else Returns []),
      playlists_insert = (\<lambda>title description privacy. Returns \<lparr>ident = ''NEW''\<rparr>)\<rparr>"

text \<open>A second track with the name of \<open>ex_track_a\<close>, by another artist.\<close>

definition ex_track_c :: track where
  "ex_track_c = \<lparr>name = ''Intro'', artists = [''Zed'']\<rparr>"

definition ex_overlap :: run where
  "ex_overlap =
     \<lparr>progress_file =
        Some (Json \<lparr>playlist_id = ''P'', processed_tracks = [''Intro'', ''Blue''],
                     remaining_tracks = [ex_track_c]\<rparr>),
      search_calls = 3, insert_calls = 3,
      calls =
        [Search_list ''Intro Ann Bob'', Playlist_items_insert ''P'' ''vid'', Sleep 2,
         Search_list ''Blue Cy'', Playlist_items_insert ''P'' ''vid'', Sleep 2,
         Search_list ''Intro Zed'', Playlist_items_insert ''P'' ''vid''],
      processed = [''Intro'', ''Blue''],
      remaining = [ex_track_c]\<rparr>"

text \<open>A raw item with all its fields, for a descriptor.\<close>

definition ex_item :: "track \<Rightarrow> raw_item" where
  "ex_item t =
     \<lparr>item_track = Some \<lparr>raw_name = Some (name t), raw_artists = Some (map Some (artists t))\<rparr>\<rparr>"

text \<open>A source whose saved tracks are the single track \<open>ex_track_c\<close>.\<close>

definition ex_sp :: spotify where
  "ex_sp = spotify_client [ex_item ex_track_c] (\<lambda>pid. None)"

text \<open>A world in which the progress file holds \<open>ex_old_progress\<close>.\<close>

definition ex_world_old :: world where
  "ex_world_old = ex_world\<lparr>progress_file := Some (Json ex_old_progress)\<rparr>"

text \<open>
  Twenty numbered songs, and a library of saved tracks that holds one item without a
  track followed by the twenty songs.
\<close>

definition ex_song :: "nat \<Rightarrow> track" where
  "ex_song n = \<lparr>name = replicate (Suc n) (CHR ''x''), artists = [''Ann'']\<rparr>"

definition ex_library :: "raw_item list" where
  "ex_library = \<lparr>item_track = None\<rparr> # map (\<lambda>n. ex_item (ex_song n)) [0..<20]"

text \<open>A library of 21 saved items none of which has a track.\<close>

definition ex_library_gone :: "raw_item list" where
  "ex_library_gone = replicate 21 \<lparr>item_track = None\<rparr>"

text \<open>A raw item that the loop over the items turns into a descriptor.\<close>

fun has_fields :: "raw_item \<Rightarrow> bool" where
  "has_fields item =
     (case item_track item of
        None \<Rightarrow> False
      | Some tr \<Rightarrow> (case descriptor tr of Inr d \<Rightarrow> True | Inl e \<Rightarrow> False))"

text \<open>
  A destination that finds nothing in its second search (number 1) and a video in every
  other one; and one that finds a video in every search and refuses its second, third and
  fourth append call.
\<close>

definition ex_yt_unfound :: youtube where
  "ex_yt_unfound =
     \<lparr>search_list = (\<lambda>n q. if n = 1 then Returns [] else Returns [''vid'']),
      playlist_items_insert = (\<lambda>n pid v. Returns ()),
      playlists_list = (\<lambda>i. Returns []),
      playlists_insert = (\<lambda>title description privacy. Returns \<lparr>ident = ''NEW''\<rparr>)\<rparr>"


text \<open>
  States of a run over \<open>ex_track_b\<close>, \<open>ex_track_a\<close> and the song 0: after the first
  track has been added, and at the end when the second has been skipped for want of a
  search result, or after three refused appends.
\<close>

definition ex_after_b :: run where
  "ex_after_b =
     \<lparr>progress_file =
        Some (Json \<lparr>playlist_id = ''P'', processed_tracks = [''Blue''],
                     remaining_tracks = [ex_track_a, ex_song 0]\<rparr>),
      search_calls = 1, insert_calls = 1,
      calls = [Search_list ''Blue Cy'', Playlist_items_insert ''P'' ''vid'', Sleep 2],
      processed = [''Blue''],
      remaining = [ex_track_a, ex_song 0]\<rparr>"

definition ex_left_a :: run where
  "ex_left_a =
     \<lparr>progress_file =
        Some (Json \<lparr>playlist_id = ''P'', processed_tracks = [''Blue'', ''x''],
                     remaining_tracks = [ex_track_a]\<rparr>),
      search_calls = 3, insert_calls = 2,
      calls = [Search_list ''Blue Cy'', Playlist_items_insert ''P'' ''vid'', Sleep 2,
               Search_list ''Intro Ann Bob'',
               Search_list ''x Ann'', Playlist_items_insert ''P'' ''vid'', Sleep 2],
      processed = [''Blue'', ''x''],
      remaining = [ex_track_a]\<rparr>"


section \<open>What one pass can do to the lists and the file\<close>

text \<open>
  The three ways in which a pass through the loop changes \<^verbatim>\<open>processed_tracks\<close>,
  \<^verbatim>\<open>remaining_tracks\<close> and the progress file: not at all; by moving the track from
  the remaining to the processed ones and saving; by saving only (the quota stop).
\<close>

definition kept :: "run \<Rightarrow> run \<Rightarrow> bool" where
  "kept s s' \<longleftrightarrow>
     processed s' = processed s \<and> remaining s' = remaining s
     \<and> progress_file s' = progress_file s"

definition moved :: "string \<Rightarrow> track \<Rightarrow> run \<Rightarrow> run \<Rightarrow> bool" where
  "moved pid t s s' \<longleftrightarrow>
     t \<in> set (remaining s) \<and> processed s' = processed s @ [name t]
     \<and> remaining s' = remove1 t (remaining s)
     \<and> progress_file s' =
          Some (Json \<lparr>playlist_id = pid, processed_tracks = processed s',
                       remaining_tracks = remaining s'\<rparr>)"

definition stopped :: "string \<Rightarrow> run \<Rightarrow> run \<Rightarrow> bool" where
  "stopped pid s s' \<longleftrightarrow>
     processed s' = processed s \<and> remaining s' = remaining s
     \<and> progress_file s' =
          Some (Json \<lparr>playlist_id = pid, processed_tracks = processed s,
                       remaining_tracks = remaining s\<rparr>)"

section \<open>The progress store\<close>

lemma progress_file_unlink: "progress_file (unlink_progress w) = None"
  by (simp add: unlink_progress_def)

lemma progress_file_save:
  "progress_file (save_progress pid ps rs w) =
     Some (Json \<lparr>playlist_id = pid, processed_tracks = ps, remaining_tracks = rs\<rparr>)"
  by (simp add: save_progress_def json_dump_def open_w_def)

lemma apply_store_ops_snoc:
  "apply_store_ops (xs @ [x]) w = apply_store_op x (apply_store_ops xs w)"
  by (induction xs arbitrary: w) simp_all

lemma load_progress_None: "load_progress w = Inr None \<longleftrightarrow> progress_file w = None"
  by (simp add: load_progress_def split: option.splits content.splits)

lemma progress_file_history:
  "progress_file w = None \<Longrightarrow>
   progress_file (apply_store_ops xs w) = None \<longleftrightarrow> (xs = [] \<or> last xs = Clear)"
proof (induction xs rule: rev_induct)
  case Nil
  then show ?case by simp
next
  case (snoc x xs)
  show ?case
    by (cases x) (simp_all add: apply_store_ops_snoc progress_file_save progress_file_unlink)
qed

text \<open>
  C9, as the code has it. A save that completes leaves exactly the new record in the file,
  whatever was there before: the record is overwritten wholesale. The save is not atomic:
  the file is opened for writing in place, which truncates it, and only then written, so
  a crash during the save can leave the file with neither the old nor the new record but
  with a partial one, which \<^verbatim>\<open>load_progress\<close> cannot read. There is no write to a
  temporary file and no rename.
\<close>

theorem save_progress_overwrites:
  "progress_file (save_progress pid ps rs w) =
     Some (Json \<lparr>playlist_id = pid, processed_tracks = ps, remaining_tracks = rs\<rparr>)
   \<and> map progress_file (save_progress_crash_points pid ps rs w) =
       [progress_file w, Some Partial,
        Some (Json \<lparr>playlist_id = pid, processed_tracks = ps, remaining_tracks = rs\<rparr>)]
   \<and> load_progress (open_w w) = Inl JSONDecodeError"
  by (simp add: save_progress_crash_points_def progress_file_save open_w_def load_progress_def)

text \<open>
  C9 as stated fails: with the record \<open>ex_old_progress\<close> in the file, a save of a new
  state passes through a file that holds neither the old record nor the new one.
\<close>

theorem save_progress_atomic_counterexample:
  "open_w (ex_world\<lparr>progress_file := Some (Json ex_old_progress)\<rparr>)
     \<in> set (save_progress_crash_points ''OLD'' [''Intro'', ''Blue''] []
              (ex_world\<lparr>progress_file := Some (Json ex_old_progress)\<rparr>))
   \<and> progress_file (open_w (ex_world\<lparr>progress_file := Some (Json ex_old_progress)\<rparr>))
       \<noteq> Some (Json ex_old_progress)
   \<and> progress_file (open_w (ex_world\<lparr>progress_file := Some (Json ex_old_progress)\<rparr>))
       \<noteq> progress_file (save_progress ''OLD'' [''Intro'', ''Blue''] []
              (ex_world\<lparr>progress_file := Some (Json ex_old_progress)\<rparr>))"
  by (simp add: save_progress_crash_points_def progress_file_save open_w_def)

text \<open>
  C10. Loading after a save gives a record with exactly the saved playlist id, processed
  list and remaining list. Loading gives absence exactly when the file does not exist;
  starting without a file, that is exactly when nothing has been saved yet or the last
  operation on the store was the clearing of the record.
\<close>

theorem store_round_trip:
  "load_progress (save_progress pid ps rs w) =
     Inr (Some \<lparr>playlist_id = pid, processed_tracks = ps, remaining_tracks = rs\<rparr>)
   \<and> (load_progress w = Inr None \<longleftrightarrow> progress_file w = None)
   \<and> (progress_file w = None \<longrightarrow>
        (load_progress (apply_store_ops xs w) = Inr None \<longleftrightarrow> (xs = [] \<or> last xs = Clear)))"
  using progress_file_history [of w xs]
  by (simp add: load_progress_None) (simp add: load_progress_def progress_file_save)

theorem store_round_trip_witness:
  "progress_file ex_world = None
   \<and> load_progress (save_progress ''P'' [''Intro''] [ex_track_b] ex_world) =
       Inr (Some \<lparr>playlist_id = ''P'', processed_tracks = [''Intro''],
                  remaining_tracks = [ex_track_b]\<rparr>)
   \<and> load_progress (apply_store_ops [Save ''P'' [''Intro''] [ex_track_b], Clear] ex_world)
       = Inr None
   \<and> load_progress (apply_store_ops [Clear, Save ''P'' [''Intro''] [ex_track_b]] ex_world)
       \<noteq> Inr None"
  using store_round_trip [of "''P''" "[''Intro'']" "[ex_track_b]" ex_world
          "[Save ''P'' [''Intro''] [ex_track_b], Clear]"]
        store_round_trip [of "''P''" "[''Intro'']" "[ex_track_b]" ex_world
          "[Clear, Save ''P'' [''Intro''] [ex_track_b]]"]
  by (simp add: ex_world_def)

section \<open>Single passes and single tracks\<close>

lemma try_body_no_hits:
  assumes "search_list yt (search_calls s) (query_of t) = Returns []"
  shows "try_body yt pid delay t s =
           (Inr (), s\<lparr>search_calls := Suc (search_calls s),
                       calls := calls s @ [Search_list (query_of t)]\<rparr>)"
  using assms by (simp add: try_body_def)

lemma try_body_insert_raises:
  assumes "search_list yt (search_calls s) (query_of t) = Returns (v # vs)"
    and "playlist_items_insert yt (insert_calls s) pid v = Raises e"
  shows "try_body yt pid delay t s =
           (Inl e, s\<lparr>search_calls := Suc (search_calls s),
                      insert_calls := Suc (insert_calls s),
                      calls := calls s @ [Search_list (query_of t), Playlist_items_insert pid v]\<rparr>)"
  using assms by (simp add: try_body_def)

lemma try_body_added:
  assumes "search_list yt (search_calls s) (query_of t) = Returns (v # vs)"
    and "playlist_items_insert yt (insert_calls s) pid v = Returns ()"
    and "t \<in> set (remaining s)" and "0 \<le> delay" and "delay \<le> 9223372036"
  shows "try_body yt pid delay t s =
           (Inr (), s\<lparr>progress_file :=
                          Some (Json \<lparr>playlist_id = pid,
                                       processed_tracks = processed s @ [name t],
                                       remaining_tracks = remove1 t (remaining s)\<rparr>),
                       search_calls := Suc (search_calls s),
                       insert_calls := Suc (insert_calls s),
                       calls := calls s @ [Search_list (query_of t), Playlist_items_insert pid v]
                                  @ slept delay,
                       processed := processed s @ [name t],
                       remaining := remove1 t (remaining s)\<rparr>)"
  using assms
  by (simp add: try_body_def sleep_def slept_def save_progress_def json_dump_def open_w_def)

lemma while_retry_no_hits:
  assumes "0 < max_retries"
    and "search_list yt (search_calls s) (query_of t) = Returns []"
  shows "while_retry yt pid max_retries delay t 0 s =
           (Break, s\<lparr>search_calls := Suc (search_calls s),
                      calls := calls s @ [Search_list (query_of t)]\<rparr>)"
  using assms
  by (subst while_retry.simps) (simp add: while_body_def try_body_no_hits)

lemma while_retry_added:
  assumes "0 < max_retries"
    and "search_list yt (search_calls s) (query_of t) = Returns (v # vs)"
    and "playlist_items_insert yt (insert_calls s) pid v = Returns ()"
    and "t \<in> set (remaining s)"
  shows "while_retry yt pid max_retries delay t 0 s =
           (Break, s\<lparr>progress_file :=
                          Some (Json \<lparr>playlist_id = pid,
                                       processed_tracks = processed s @ [name t],
                                       remaining_tracks = remove1 t (remaining s)\<rparr>),
                       search_calls := Suc (search_calls s),
                       insert_calls := Suc (insert_calls s),
                       calls := calls s @ [Search_list (query_of t), Playlist_items_insert pid v]
                                  @ slept delay,
                       processed := processed s @ [name t],
                       remaining := remove1 t (remaining s)\<rparr>)"
  using assms
  by (subst while_retry.simps)
     (auto simp: while_body_def try_body_def sleep_def slept_def save_progress_def
                 json_dump_def open_w_def)

lemma while_retry_quota:
  assumes "0 < max_retries"
    and "search_list yt (search_calls s) (query_of t) = Returns (v # vs)"
    and "playlist_items_insert yt (insert_calls s) pid v = Raises (HttpError e)"
    and "contains ''quotaExceeded'' e"
  shows "while_retry yt pid max_retries delay t 0 s =
           (Return, s\<lparr>progress_file :=
                          Some (Json \<lparr>playlist_id = pid,
                                       processed_tracks = processed s,
                                       remaining_tracks = remaining s\<rparr>),
                       search_calls := Suc (search_calls s),
                       insert_calls := Suc (insert_calls s),
                       calls := calls s @ [Search_list (query_of t), Playlist_items_insert pid v]\<rparr>)"
  using assms
  by (subst while_retry.simps)
     (simp add: while_body_def try_body_insert_raises except_HttpError_def
                save_progress_def json_dump_def open_w_def)



lemma start_run_fresh:
  "map_option playlist_id loaded \<noteq> Some pid \<Longrightarrow>
   start_run pid tracks loaded w =
     \<lparr>progress_file = progress_file w, search_calls = search_calls w,
      insert_calls = insert_calls w, calls = calls w, processed = [], remaining = tracks\<rparr>"
  by (cases w) (auto simp: start_run_def world.defs split: option.splits)

lemma start_run_resume:
  "playlist_id r = pid \<Longrightarrow>
   start_run pid tracks (Some r) w =
     \<lparr>progress_file = progress_file w, search_calls = search_calls w,
      insert_calls = insert_calls w, calls = calls w,
      processed = processed_tracks r, remaining = remaining_tracks r\<rparr>"
  by (cases w) (auto simp: start_run_def world.defs)

lemma progress_file_start_run: "progress_file (start_run pid tracks loaded w) = progress_file w"
  by (cases w) (simp add: start_run_def world.defs split: option.splits)

lemma search_calls_start_run: "search_calls (start_run pid tracks loaded w) = search_calls w"
  by (cases w) (simp add: start_run_def world.defs split: option.splits)

lemma insert_calls_start_run: "insert_calls (start_run pid tracks loaded w) = insert_calls w"
  by (cases w) (simp add: start_run_def world.defs split: option.splits)


text \<open>
  C3. A run over five tracks that does not resume (no progress file, or one for another
  playlist), in which the searches find a video and the first two append calls succeed
  and the third signals quota exhaustion, returns normally; the processed names are those
  of the first two tracks, the remaining tracks are the last three, the third among them,
  and the progress file holds exactly this split for the playlist. This holds for every
  delay: the pause after an add is inside the \<^verbatim>\<open>try\<close> block, so a length that
  \<^verbatim>\<open>sleep\<close> refuses only takes the pause out of the log of calls.
\<close>

theorem quota_stop_at_third_append:
  assumes l: "load_progress w = Inr loaded" "map_option playlist_id loaded \<noteq> Some pid"
    and m: "0 < max_retries"
    and s1: "search_list yt (search_calls w) (query_of t1) = Returns (v1 # r1)"
    and s2: "search_list yt (Suc (search_calls w)) (query_of t2) = Returns (v2 # r2)"
    and s3: "search_list yt (Suc (Suc (search_calls w))) (query_of t3) = Returns (v3 # r3)"
    and i1: "playlist_items_insert yt (insert_calls w) pid v1 = Returns ()"
    and i2: "playlist_items_insert yt (Suc (insert_calls w)) pid v2 = Returns ()"
    and i3: "playlist_items_insert yt (Suc (Suc (insert_calls w))) pid v3 = Raises (HttpError e)"
    and q: "contains ''quotaExceeded'' e"
  shows "search_and_add_to_playlist yt pid [t1, t2, t3, t4, t5] max_retries delay w =
           Inr \<lparr>progress_file =
                  Some (Json \<lparr>playlist_id = pid, processed_tracks = [name t1, name t2],
                               remaining_tracks = [t3, t4, t5]\<rparr>),
                search_calls = Suc (Suc (Suc (search_calls w))),
                insert_calls = Suc (Suc (Suc (insert_calls w))),
                calls = calls w @
                  [Search_list (query_of t1), Playlist_items_insert pid v1] @ slept delay @
                  [Search_list (query_of t2), Playlist_items_insert pid v2] @ slept delay @
                  [Search_list (query_of t3), Playlist_items_insert pid v3],
                processed = [name t1, name t2],
                remaining = [t3, t4, t5]\<rparr>"
proof -
  define s0 where "s0 = start_run pid [t1, t2, t3, t4, t5] loaded w"
  have s0: "s0 = \<lparr>progress_file = progress_file w, search_calls = search_calls w,
      insert_calls = insert_calls w, calls = calls w, processed = [],
      remaining = [t1, t2, t3, t4, t5]\<rparr>"
    unfolding s0_def using l(2) by (rule start_run_fresh)
  define a where "a = s0\<lparr>progress_file :=
        Some (Json \<lparr>playlist_id = pid, processed_tracks = [name t1],
                     remaining_tracks = [t2, t3, t4, t5]\<rparr>),
      search_calls := Suc (search_calls w), insert_calls := Suc (insert_calls w),
      calls := calls w @ [Search_list (query_of t1), Playlist_items_insert pid v1]
                 @ slept delay,
      processed := [name t1], remaining := [t2, t3, t4, t5]\<rparr>"
  define b where "b = a\<lparr>progress_file :=
        Some (Json \<lparr>playlist_id = pid, processed_tracks = [name t1, name t2],
                     remaining_tracks = [t3, t4, t5]\<rparr>),
      search_calls := Suc (Suc (search_calls w)), insert_calls := Suc (Suc (insert_calls w)),
      calls := calls a @ [Search_list (query_of t2), Playlist_items_insert pid v2]
                 @ slept delay,
      processed := [name t1, name t2], remaining := [t3, t4, t5]\<rparr>"
  define c where "c = b\<lparr>search_calls := Suc (Suc (Suc (search_calls w))),
      insert_calls := Suc (Suc (Suc (insert_calls w))),
      calls := calls b @ [Search_list (query_of t3), Playlist_items_insert pid v3]\<rparr>"
  have w1: "while_retry yt pid max_retries delay t1 0 s0 = (Break, a)"
    using while_retry_added [of max_retries yt s0 t1 v1 r1 pid delay] m s1 i1
    by (simp add: s0 a_def)
  have w2: "while_retry yt pid max_retries delay t2 0 a = (Break, b)"
    using while_retry_added [of max_retries yt a t2 v2 r2 pid delay] m s2 i2
    by (simp add: s0 a_def b_def)
  have w3: "while_retry yt pid max_retries delay t3 0 b = (Return, c)"
    using while_retry_quota [of max_retries yt b t3 v3 r3 pid e delay] m s3 i3 q
    by (simp add: s0 a_def b_def c_def)
  have "for_tracks yt pid max_retries delay [t1, t2, t3, t4, t5] s0 = (Return, c)"
    by (simp add: w1 w2 w3)
  then have "run_loop yt pid max_retries delay s0 = Inr c"
    by (simp add: run_loop_def s0)
  then show ?thesis
    using l(1) by (simp add: search_and_add_to_playlist_def s0_def [symmetric])
                  (simp add: s0 a_def b_def c_def)
qed

theorem quota_stop_at_third_append_witness:
  "load_progress ex_world = Inr None
   \<and> contains ''quotaExceeded'' ''HttpError 403 quotaExceeded''
   \<and> search_and_add_to_playlist ex_yt_quota ''P''
       [ex_track_a, ex_track_b, ex_track_a, ex_track_b, ex_track_a] 3 2 ex_world =
       Inr \<lparr>progress_file =
              Some (Json \<lparr>playlist_id = ''P'', processed_tracks = [''Intro'', ''Blue''],
                           remaining_tracks = [ex_track_a, ex_track_b, ex_track_a]\<rparr>),
            search_calls = 3, insert_calls = 3,
            calls =
              [Search_list ''Intro Ann Bob'', Playlist_items_insert ''P'' ''vid'', Sleep 2,
               Search_list ''Blue Cy'', Playlist_items_insert ''P'' ''vid'', Sleep 2,
               Search_list ''Intro Ann Bob'', Playlist_items_insert ''P'' ''vid''],
            processed = [''Intro'', ''Blue''],
            remaining = [ex_track_a, ex_track_b, ex_track_a]\<rparr>"
  using quota_stop_at_third_append [where w = ex_world and loaded = None and pid = "''P''"
          and max_retries = 3 and delay = 2 and yt = ex_yt_quota
          and ?t1.0 = ex_track_a and ?t2.0 = ex_track_b and ?t3.0 = ex_track_a
          and ?t4.0 = ex_track_b and ?t5.0 = ex_track_a
          and ?v1.0 = "''vid''" and ?v2.0 = "''vid''" and ?v3.0 = "''vid''"
          and ?r1.0 = "[]" and ?r2.0 = "[]" and ?r3.0 = "[]"
          and e = "''HttpError 403 quotaExceeded''"]
  by (simp add: ex_yt_quota_def ex_world_def load_progress_def query_of_def
        ex_track_a_def ex_track_b_def slept_def)

section \<open>Effects of the loops on the lists and the file\<close>

lemma try_body_effect:
  assumes "try_body yt pid delay t s = (r, s')" and "t \<in> set (remaining s)"
  shows "kept s s' \<or> ((\<forall>e. r \<noteq> Inl (HttpError e)) \<and> moved pid t s s')"
  using assms
  by (auto simp: try_body_def Let_def sleep_def save_progress_def json_dump_def open_w_def
                 kept_def moved_def
           split: outcome.splits list.splits if_splits sum.splits)

lemma except_HttpError_effect:
  assumes "except_HttpError pid max_retries delay e retry_count s = (p, s')"
  shows "(p = Return \<and> stopped pid s s') \<or> (p \<noteq> Return \<and> p \<noteq> Break \<and> kept s s')"
  using assms
  by (auto simp: except_HttpError_def Let_def sleep_def save_progress_def json_dump_def
                 open_w_def kept_def stopped_def
           split: if_splits sum.splits)

lemma while_body_effect:
  assumes "while_body yt pid max_retries delay t retry_count s = (p, s')"
    and "t \<in> set (remaining s)"
  shows "(p = Return \<and> stopped pid s s') \<or> (p \<noteq> Return \<and> kept s s')
         \<or> (p = Break \<and> moved pid t s s')"
proof -
  obtain r s1 where tb: "try_body yt pid delay t s = (r, s1)"
    by (cases "try_body yt pid delay t s")
  note eff = try_body_effect [OF tb assms(2)]
  show ?thesis
  proof (cases r)
    case (Inr u)
    with assms(1) tb have "p = Break" "s' = s1"
      by (simp_all add: while_body_def)
    with eff show ?thesis by auto
  next
    case (Inl x)
    show ?thesis
    proof (cases x)
      case (HttpError e)
      with Inl eff have k: "kept s s1" by auto
      from assms(1) tb Inl HttpError
      have "except_HttpError pid max_retries delay e retry_count s1 = (p, s')"
        by (simp add: while_body_def)
      from except_HttpError_effect [OF this] k show ?thesis
        by (auto simp: kept_def stopped_def)
    qed (use assms(1) tb Inl eff in \<open>auto simp: while_body_def\<close>)
  qed
qed

lemma kept_refl: "kept s s"
  by (simp add: kept_def)

lemma while_retry_effect:
  assumes "while_retry yt pid max_retries delay t retry_count s = (p, s')"
    and "t \<in> set (remaining s)"
  shows "((p = Return \<and> stopped pid s s') \<or> (p \<noteq> Return \<and> kept s s')
          \<or> (p = Break \<and> moved pid t s s'))
         \<and> (\<forall>n. p \<noteq> Again n)"
  using assms
proof (induction yt pid max_retries delay t retry_count s rule: while_retry.induct)
  case (1 yt pid max_retries delay t retry_count s)
  show ?case
  proof (cases "retry_count < max_retries")
    case False
    with "1.prems"(1) show ?thesis
      by (simp add: while_retry.simps kept_refl)
  next
    case True
    obtain q s1 where wb: "while_body yt pid max_retries delay t retry_count s = (q, s1)"
      by (cases "while_body yt pid max_retries delay t retry_count s")
    note eff = while_body_effect [OF wb "1.prems"(2)]
    show ?thesis
    proof (cases q)
      case (Again n)
      with eff have k: "kept s s1" by auto
      from True wb Again "1.prems"(1)
      have rec: "while_retry yt pid max_retries delay t n s1 = (p, s')"
        by (simp add: while_retry.simps [of yt pid max_retries delay t retry_count s])
      from k "1.prems"(2) have "t \<in> set (remaining s1)"
        by (simp add: kept_def)
      from "1.IH" [OF True wb [symmetric] Again rec this] k show ?thesis
        by (auto simp: kept_def stopped_def moved_def)
    qed (use True wb "1.prems"(1) eff in
          \<open>auto simp: while_retry.simps [of yt pid max_retries delay t retry_count s]\<close>)
  qed
qed


lemma for_tracks_effect:
  assumes "for_tracks yt pid max_retries delay ts s = (p, s')"
    and "mset ts \<subseteq># mset (remaining s)"
  shows "(\<forall>n. p \<noteq> Again n)
         \<and> (p = Return \<longrightarrow> remaining s' \<noteq> []
              \<and> progress_file s' =
                   Some (Json \<lparr>playlist_id = pid, processed_tracks = processed s',
                                remaining_tracks = remaining s'\<rparr>))
         \<and> (progress_file s \<noteq> None \<longrightarrow> progress_file s' \<noteq> None)
         \<and> (processed s' \<noteq> processed s \<longrightarrow> progress_file s' \<noteq> None)"
  using assms
proof (induction ts arbitrary: s)
  case Nil
  then show ?case by simp
next
  case (Cons t ts)
  from Cons.prems(2) have t: "t \<in> set (remaining s)"
    by (metis list.set_intros(1) mset_subset_eqD set_mset_mset)
  obtain q s1 where wr: "while_retry yt pid max_retries delay t 0 s = (q, s1)"
    by (cases "while_retry yt pid max_retries delay t 0 s")
  from while_retry_effect [OF wr t]
  have eff: "(q = Return \<and> stopped pid s s1) \<or> (q \<noteq> Return \<and> kept s s1)
             \<or> (q = Break \<and> moved pid t s s1)"
    and na: "\<forall>n. q \<noteq> Again n"
    by simp_all
  show ?case
  proof (cases "q = Break")
    case True
    with wr Cons.prems(1) have rest: "for_tracks yt pid max_retries delay ts s1 = (p, s')"
      by simp
    from eff True have km: "kept s s1 \<or> moved pid t s s1" by auto
    have a: "mset ts \<subseteq># mset (remaining s)"
      using Cons.prems(2) by (simp add: subset_mset.order_trans [OF mset_subset_eq_add_right [of "mset ts" "{#t#}"]])
    have b: "mset ts \<subseteq># mset (remove1 t (remaining s))"
      using Cons.prems(2) t by (simp add: insert_subset_eq_iff)
    from km a b have sub: "mset ts \<subseteq># mset (remaining s1)"
      by (auto simp: kept_def moved_def)
    from km have fl: "progress_file s \<noteq> None \<longrightarrow> progress_file s1 \<noteq> None"
      and pr: "processed s1 = processed s \<or> progress_file s1 \<noteq> None"
      by (auto simp: kept_def moved_def)
    from Cons.IH [OF rest sub] fl pr show ?thesis by auto
  next
    case False
    with wr Cons.prems(1) have "p = q" "s' = s1"
      by (cases q; simp)+
    with eff na False t show ?thesis
      by (auto simp: kept_def stopped_def)
  qed
qed


lemma for_tracks_adds_all:
  assumes "0 < max_retries"
    and "adds_all yt pid ts (search_calls s) (insert_calls s)"
    and "remaining s = ts"
  shows "\<exists>s'. for_tracks yt pid max_retries delay ts s = (Break, s')
              \<and> remaining s' = [] \<and> processed s' = processed s @ map name ts
              \<and> insert_calls s' = insert_calls s + length ts"
  using assms(2,3)
proof (induction ts arbitrary: s)
  case Nil
  then show ?case by simp
next
  case (Cons t ts)
  from Cons.prems(1) obtain v vs
    where sr: "search_list yt (search_calls s) (query_of t) = Returns (v # vs)"
      and ir: "playlist_items_insert yt (insert_calls s) pid v = Returns ()"
      and rest: "adds_all yt pid ts (Suc (search_calls s)) (Suc (insert_calls s))"
    by (auto split: outcome.splits list.splits)
  define s1 where "s1 = s\<lparr>progress_file :=
        Some (Json \<lparr>playlist_id = pid, processed_tracks = processed s @ [name t],
                     remaining_tracks = remove1 t (remaining s)\<rparr>),
      search_calls := Suc (search_calls s), insert_calls := Suc (insert_calls s),
      calls := calls s @ [Search_list (query_of t), Playlist_items_insert pid v] @ slept delay,
      processed := processed s @ [name t], remaining := remove1 t (remaining s)\<rparr>"
  have wr: "while_retry yt pid max_retries delay t 0 s = (Break, s1)"
    unfolding s1_def
    using assms(1) sr ir by (rule while_retry_added) (simp add: Cons.prems(2))
  have "adds_all yt pid ts (search_calls s1) (insert_calls s1)" and "remaining s1 = ts"
    using rest Cons.prems(2) by (simp_all add: s1_def)
  from Cons.IH [OF this] obtain s'
    where "for_tracks yt pid max_retries delay ts s1 = (Break, s')"
      and "remaining s' = []" and "processed s' = processed s1 @ map name ts"
      and "insert_calls s' = insert_calls s1 + length ts"
    by blast
  then show ?case
    by (simp add: wr s1_def)
qed

lemma run_loop_effect:
  assumes "run_loop yt pid max_retries delay s0 = Inr s'"
  shows "(remaining s' = [] \<longrightarrow> progress_file s' = None)
         \<and> (remaining s' \<noteq> [] \<longrightarrow> progress_file s0 \<noteq> None \<or> processed s' \<noteq> processed s0
              \<longrightarrow> progress_file s' \<noteq> None)
         \<and> (fst (for_tracks yt pid max_retries delay (remaining s0) s0) = Return \<longrightarrow>
              remaining s' \<noteq> []
              \<and> progress_file s' =
                   Some (Json \<lparr>playlist_id = pid, processed_tracks = processed s',
                                remaining_tracks = remaining s'\<rparr>))"
proof -
  obtain p s1 where ft: "for_tracks yt pid max_retries delay (remaining s0) s0 = (p, s1)"
    by (cases "for_tracks yt pid max_retries delay (remaining s0) s0")
  note eff = for_tracks_effect [OF ft subset_mset.order_refl]
  show ?thesis
  proof (cases p)
    case Break
    with assms ft have "s' = finish s1" by (simp add: run_loop_def)
    with eff ft Break show ?thesis
      by (auto simp: finish_def unlink_progress_def)
  next
    case Return
    with assms ft have "s' = s1" by (simp add: run_loop_def)
    with eff ft Return show ?thesis by auto
  next
    case (Raise e)
    with assms ft show ?thesis by (simp add: run_loop_def)
  next
    case (Again n)
    with eff show ?thesis by simp
  qed
qed

lemma moved_names:
  assumes "moved pid t s s1"
    and "distinct (map name (remaining s))"
    and "set (processed s) \<inter> name ` set (remaining s) = {}"
  shows "distinct (map name (remaining s1))"
    and "set (processed s1) \<inter> name ` set (remaining s1) = {}"
    and "set (processed s1) \<union> name ` set (remaining s1) =
           set (processed s) \<union> name ` set (remaining s)"
    and "set (remaining s1) = set (remaining s) - {t}"
proof -
  from assms(2) have dr: "distinct (remaining s)"
    by (simp add: distinct_map)
  from assms(1) have t: "t \<in> set (remaining s)"
    and p: "processed s1 = processed s @ [name t]"
    and r: "remaining s1 = remove1 t (remaining s)"
    by (simp_all add: moved_def)
  from dr r show sr: "set (remaining s1) = set (remaining s) - {t}"
    by simp
  from assms(2) r show "distinct (map name (remaining s1))"
    by (simp add: distinct_map_filter distinct_remove1_removeAll dr removeAll_filter_not_eq)
  have inj: "inj_on name (set (remaining s))"
    using assms(2) by (simp add: distinct_map)
  have nt: "name t \<notin> name ` (set (remaining s) - {t})"
    using inj t by (auto dest: inj_onD)
  from assms(3) nt p sr show "set (processed s1) \<inter> name ` set (remaining s1) = {}"
    by auto
  from t p sr show "set (processed s1) \<union> name ` set (remaining s1) =
           set (processed s) \<union> name ` set (remaining s)"
    by auto
qed

lemma for_tracks_names:
  assumes "for_tracks yt pid max_retries delay ts s = (p, s')"
    and "set ts \<subseteq> set (remaining s)" and "distinct ts"
    and "distinct (map name (remaining s))"
    and "set (processed s) \<inter> name ` set (remaining s) = {}"
  shows "distinct (map name (remaining s'))
         \<and> set (processed s') \<inter> name ` set (remaining s') = {}
         \<and> set (processed s') \<union> name ` set (remaining s') =
             set (processed s) \<union> name ` set (remaining s)"
  using assms
proof (induction ts arbitrary: s)
  case Nil
  then show ?case by simp
next
  case (Cons t ts)
  from Cons.prems(2) have t: "t \<in> set (remaining s)" by simp
  obtain q s1 where wr: "while_retry yt pid max_retries delay t 0 s = (q, s1)"
    by (cases "while_retry yt pid max_retries delay t 0 s")
  from while_retry_effect [OF wr t]
  have eff: "(q = Return \<and> stopped pid s s1) \<or> (q \<noteq> Return \<and> kept s s1)
             \<or> (q = Break \<and> moved pid t s s1)"
    by simp
  have step: "distinct (map name (remaining s1))
         \<and> set (processed s1) \<inter> name ` set (remaining s1) = {}
         \<and> set (processed s1) \<union> name ` set (remaining s1) =
             set (processed s) \<union> name ` set (remaining s)
         \<and> set ts \<subseteq> set (remaining s1)"
    using eff
  proof (elim disjE conjE)
    assume "moved pid t s s1"
    from moved_names [OF this Cons.prems(4,5)] Cons.prems(2,3) show ?thesis
      by auto
  qed (use Cons.prems in \<open>auto simp: kept_def stopped_def\<close>)
  show ?case
  proof (cases "q = Break")
    case True
    with wr Cons.prems(1) have "for_tracks yt pid max_retries delay ts s1 = (p, s')"
      by simp
    from Cons.IH [OF this] step Cons.prems(3) show ?thesis by simp
  next
    case False
    with wr Cons.prems(1) have "s' = s1"
      by (cases q; simp)
    with step show ?thesis by simp
  qed
qed

lemma for_tracks_append:
  "for_tracks yt pid max_retries delay (xs @ ys) s =
     (case for_tracks yt pid max_retries delay xs s of
        (Break, s1) \<Rightarrow> for_tracks yt pid max_retries delay ys s1
      | (p, s1) \<Rightarrow> (p, s1))"
proof (induction xs arbitrary: s)
  case Nil
  show ?case by simp
next
  case (Cons x xs)
  obtain q s1 where wr: "while_retry yt pid max_retries delay x 0 s = (q, s1)"
    by (cases "while_retry yt pid max_retries delay x 0 s")
  show ?case
    by (cases q) (simp_all add: wr Cons.IH)
qed

lemma set_insert_remove1: "x \<in> set xs \<Longrightarrow> set xs = insert x (set (remove1 x xs))"
  by (induction xs) auto

lemma kept_trans: "kept s s1 \<Longrightarrow> kept s1 s' \<Longrightarrow> kept s s'"
  by (simp add: kept_def)

text \<open>
  Over any part of the loop: every track that was remaining is still remaining or is one
  of the tracks gone through; the file is as before together with both lists, or holds
  the lists as they are now; the processed names and the names of the remaining tracks
  are together what they were.
\<close>

lemma for_tracks_lists:
  assumes "for_tracks yt pid max_retries delay ts s = (p, s')"
    and "mset ts \<subseteq># mset (remaining s)"
  shows "mset (remaining s) \<subseteq># mset (remaining s') + mset ts
         \<and> (kept s s'
            \<or> progress_file s' =
                Some (Json \<lparr>playlist_id = pid, processed_tracks = processed s',
                             remaining_tracks = remaining s'\<rparr>))
         \<and> set (processed s') \<union> name ` set (remaining s') =
             set (processed s) \<union> name ` set (remaining s)"
  using assms
proof (induction ts arbitrary: s)
  case Nil
  then show ?case by (simp add: kept_refl)
next
  case (Cons t ts)
  from Cons.prems(2) have t: "t \<in> set (remaining s)"
    by (metis list.set_intros(1) mset_subset_eqD set_mset_mset)
  obtain q s1 where wr: "while_retry yt pid max_retries delay t 0 s = (q, s1)"
    by (cases "while_retry yt pid max_retries delay t 0 s")
  from while_retry_effect [OF wr t]
  have eff: "(q = Return \<and> stopped pid s s1) \<or> (q \<noteq> Return \<and> kept s s1)
             \<or> (q = Break \<and> moved pid t s s1)"
    by simp
  have sub: "mset ts \<subseteq># mset (remaining s)"
    using Cons.prems(2)
    by (simp add: subset_mset.order_trans [OF mset_subset_eq_add_right [of "mset ts" "{#t#}"]])
  have rem: "mset ts \<subseteq># mset (remove1 t (remaining s))"
    using Cons.prems(2) t by (simp add: insert_subset_eq_iff)
  have names: "name ` set (remaining s) = insert (name t) (name ` set (remove1 t (remaining s)))"
  proof -
    from t have "set (remaining s) = insert t (set (remove1 t (remaining s)))"
      by (rule set_insert_remove1)
    then show ?thesis by (metis image_insert)
  qed
  show ?case
  proof (cases "q = Break")
    case True
    with wr Cons.prems(1) have rest: "for_tracks yt pid max_retries delay ts s1 = (p, s')"
      by simp
    from eff True have "kept s s1 \<or> moved pid t s s1" by auto
    then show ?thesis
    proof
      assume k: "kept s s1"
      then have "mset ts \<subseteq># mset (remaining s1)"
        using sub by (simp add: kept_def)
      from Cons.IH [OF rest this] k show ?thesis
        by (auto simp: kept_def intro: subset_mset.order_trans)
    next
      assume m: "moved pid t s s1"
      then have "mset ts \<subseteq># mset (remaining s1)"
        using rem by (simp add: moved_def)
      note ih = Cons.IH [OF rest this]
      have r: "mset (remaining s) = add_mset t (mset (remaining s1))"
        using m t by (simp add: moved_def)
      from ih have a: "mset (remaining s) \<subseteq># mset (remaining s') + mset (t # ts)"
        by (simp add: r)
      from ih m have b: "kept s s'
            \<or> progress_file s' =
                Some (Json \<lparr>playlist_id = pid, processed_tracks = processed s',
                             remaining_tracks = remaining s'\<rparr>)"
        by (auto simp: kept_def moved_def)
      from ih m names have c: "set (processed s') \<union> name ` set (remaining s') =
             set (processed s) \<union> name ` set (remaining s)"
        by (auto simp: moved_def)
      from a b c show ?thesis by simp
    qed
  next
    case False
    with wr Cons.prems(1) have "s' = s1"
      by (cases q; simp)
    with eff False show ?thesis
      by (auto simp: kept_def stopped_def)
  qed
qed

text \<open>
  A track that the loop has left without a change to the lists is among the remaining
  tracks when the function returns, whatever happens to the tracks after it; the file is
  the one of the start or holds the final lists; and when the names at the start are
  pairwise distinct and none of them processed, the name of the track is not among the
  processed names.
\<close>

lemma run_keeps_skipped:
  assumes l: "load_progress w = Inr loaded"
    and r: "remaining (start_run pid tracks loaded w) = before @ t # ts"
    and b: "for_tracks yt pid max_retries delay before (start_run pid tracks loaded w) = (Break, s)"
    and wr: "while_retry yt pid max_retries delay t 0 s = (Break, s1)"
    and k: "kept s s1"
    and run: "search_and_add_to_playlist yt pid tracks max_retries delay w = Inr s'"
  shows "t \<in> set (remaining s')
         \<and> (progress_file s' = progress_file w
            \<or> progress_file s' =
                Some (Json \<lparr>playlist_id = pid, processed_tracks = processed s',
                             remaining_tracks = remaining s'\<rparr>))
         \<and> (distinct (map name (remaining (start_run pid tracks loaded w)))
              \<and> set (processed (start_run pid tracks loaded w))
                  \<inter> name ` set (remaining (start_run pid tracks loaded w)) = {}
             \<longrightarrow> name t \<notin> set (processed s'))"
proof -
  define s0 where "s0 = start_run pid tracks loaded w"
  obtain p s2 where rest: "for_tracks yt pid max_retries delay ts s1 = (p, s2)"
    by (cases "for_tracks yt pid max_retries delay ts s1")
  have whole: "for_tracks yt pid max_retries delay (remaining s0) s0 = (p, s2)"
    using b wr rest by (simp add: s0_def r for_tracks_append)
  have sub0: "mset before \<subseteq># mset (remaining s0)"
    by (simp add: s0_def r)
  from for_tracks_lists [OF b [folded s0_def] sub0]
  have "mset (remaining s0) \<subseteq># mset (remaining s) + mset before"
    by simp
  then have here: "mset (t # ts) \<subseteq># mset (remaining s)"
    by (simp add: s0_def r)
  then have "mset ts \<subseteq># mset (remaining s1)"
    using k
    by (simp add: kept_def
          subset_mset.order_trans [OF mset_subset_eq_add_right [of "mset ts" "{#t#}"]])
  from for_tracks_lists [OF rest this] k
  have "mset (remaining s) \<subseteq># mset (remaining s2) + mset ts"
    by (simp add: kept_def)
  with here have "add_mset t (mset ts) \<subseteq># mset (remaining s2) + mset ts"
    by (simp add: subset_mset.order_trans)
  then have "{#t#} \<subseteq># mset (remaining s2)"
    by (metis add_mset_add_single subset_mset.add_le_cancel_right union_commute)
  then have t2: "t \<in> set (remaining s2)"
    by simp
  from for_tracks_effect [OF whole subset_mset.order_refl] have na: "\<forall>n. p \<noteq> Again n"
    by simp
  from run l have "run_loop yt pid max_retries delay s0 = Inr s'"
    by (simp add: search_and_add_to_playlist_def s0_def)
  with whole na t2 have s': "s' = s2"
    by (cases p) (auto simp: run_loop_def finish_def)
  from for_tracks_lists [OF whole subset_mset.order_refl]
  have fl: "kept s0 s2
            \<or> progress_file s2 =
                Some (Json \<lparr>playlist_id = pid, processed_tracks = processed s2,
                             remaining_tracks = remaining s2\<rparr>)"
    by simp
  have f0: "progress_file s0 = progress_file w"
    by (simp add: s0_def progress_file_start_run)
  have nm: "name t \<notin> set (processed s2)"
    if d: "distinct (map name (remaining s0))"
      and e: "set (processed s0) \<inter> name ` set (remaining s0) = {}"
  proof -
    from d have "distinct (remaining s0)"
      by (simp add: distinct_map)
    from for_tracks_names [OF whole subset_refl this d e] t2 show ?thesis
      by auto
  qed
  from t2 fl f0 nm show ?thesis
    by (auto simp: s' s0_def kept_def)
qed

text \<open>
  C5, as the code has it. Take a run that starts with no processed names from a list of
  tracks. After every iteration of the loop over the tracks (after any number \<open>k\<close> of
  them), the processed names and the names of the remaining tracks are together exactly
  the names of the initial tracks: nothing is gained, and no path, the skip paths included,
  takes a name out. The two sets are disjoint when the names of the initial tracks are
  pairwise distinct. A successful add appends the name of the track to the processed names
  and removes the track from the remaining ones.
\<close>

theorem names_invariant:
  assumes "processed s0 = []" and "remaining s0 = tracks"
    and "for_tracks yt pid max_retries delay (take k tracks) s0 = (p, s')"
  shows "set (processed s') \<union> name ` set (remaining s') = name ` set tracks
         \<and> (distinct (map name tracks) \<longrightarrow>
              set (processed s') \<inter> name ` set (remaining s') = {})
         \<and> (0 < max_retries \<and> t \<in> set (remaining s)
              \<and> search_list yt (search_calls s) (query_of t) = Returns (v # vs)
              \<and> playlist_items_insert yt (insert_calls s) pid v = Returns () \<longrightarrow>
             (\<exists>s1. while_retry yt pid max_retries delay t 0 s = (Break, s1)
                    \<and> processed s1 = processed s @ [name t]
                    \<and> remaining s1 = remove1 t (remaining s)))"
proof (intro conjI impI)
  have sub: "mset (take k tracks) \<subseteq># mset (remaining s0)"
    unfolding assms(2)
    by (metis append_take_drop_id mset_append mset_subset_eq_add_left)
  from for_tracks_lists [OF assms(3) sub] assms(1,2)
  show "set (processed s') \<union> name ` set (remaining s') = name ` set tracks"
    by simp
  { assume d: "distinct (map name tracks)"
    then have "distinct tracks" by (simp add: distinct_map)
    then have "distinct (take k tracks)" by simp
    moreover have "set (take k tracks) \<subseteq> set (remaining s0)"
      using assms(2) by (simp add: set_take_subset)
    ultimately show "set (processed s') \<inter> name ` set (remaining s') = {}"
      using for_tracks_names [OF assms(3)] assms(1,2) d by simp }
  { assume "0 < max_retries \<and> t \<in> set (remaining s)
              \<and> search_list yt (search_calls s) (query_of t) = Returns (v # vs)
              \<and> playlist_items_insert yt (insert_calls s) pid v = Returns ()"
    then show "\<exists>s1. while_retry yt pid max_retries delay t 0 s = (Break, s1)
                    \<and> processed s1 = processed s @ [name t]
                    \<and> remaining s1 = remove1 t (remaining s)"
      by (simp add: while_retry_added) }
qed

theorem names_invariant_witness:
  "distinct (map name [ex_track_a, ex_track_b])
   \<and> set (processed (snd (for_tracks ex_yt_quota ''P'' 3 2 (take 1 [ex_track_a, ex_track_b]) ex_run)))
       \<inter> name ` set (remaining (snd (for_tracks ex_yt_quota ''P'' 3 2
                                          (take 1 [ex_track_a, ex_track_b]) ex_run))) = {}
   \<and> set (processed (snd (for_tracks ex_yt_quota ''P'' 3 2 (take 1 [ex_track_a, ex_track_b]) ex_run)))
       \<union> name ` set (remaining (snd (for_tracks ex_yt_quota ''P'' 3 2
                                          (take 1 [ex_track_a, ex_track_b]) ex_run)))
       = name ` set [ex_track_a, ex_track_b]
   \<and> set (processed ex_overlap) \<union> name ` set (remaining ex_overlap)
       = name ` set [ex_track_a, ex_track_b, ex_track_c]
   \<and> (\<exists>s1. while_retry ex_yt_quota ''P'' 3 2 ex_track_a 0 ex_run = (Break, s1)
            \<and> processed s1 = processed ex_run @ [name ex_track_a]
            \<and> remaining s1 = remove1 ex_track_a (remaining ex_run))"
proof -
  have o: "for_tracks ex_yt_quota ''P'' 3 2 (take 3 [ex_track_a, ex_track_b, ex_track_c])
             (start_run ''P'' [ex_track_a, ex_track_b, ex_track_c] None ex_world)
           = (Return, ex_overlap)"
    by code_simp
  have st: "processed (start_run ''P'' [ex_track_a, ex_track_b, ex_track_c] None ex_world) = []"
    "remaining (start_run ''P'' [ex_track_a, ex_track_b, ex_track_c] None ex_world) =
       [ex_track_a, ex_track_b, ex_track_c]"
    by (simp_all add: start_run_fresh)
  show ?thesis
    using names_invariant [where tracks = "[ex_track_a, ex_track_b]" and ?s0.0 = ex_run
            and yt = ex_yt_quota and pid = "''P''" and max_retries = 3 and delay = 2 and k = 1
            and p = "fst (for_tracks ex_yt_quota ''P'' 3 2 (take 1 [ex_track_a, ex_track_b]) ex_run)"
            and s' = "snd (for_tracks ex_yt_quota ''P'' 3 2 (take 1 [ex_track_a, ex_track_b]) ex_run)"
            and s = ex_run and t = ex_track_a and v = "''vid''" and vs = "[]"]
          names_invariant [where tracks = "[ex_track_a, ex_track_b, ex_track_c]"
            and ?s0.0 = "start_run ''P'' [ex_track_a, ex_track_b, ex_track_c] None ex_world"
            and yt = ex_yt_quota and pid = "''P''" and max_retries = 3 and delay = 2 and k = 3
            and p = Return and s' = ex_overlap, OF st o]
    by (simp add: ex_run_def ex_track_a_def ex_track_b_def ex_yt_quota_def query_of_def)
qed

text \<open>
  C5 as stated fails for tracks that share a name: in a run over \<open>ex_track_a\<close>,
  \<open>ex_track_b\<close> and \<open>ex_track_c\<close> that the quota stops at the third append, the name
  \<open>Intro\<close> is among the processed names and the name of a remaining track.
\<close>

theorem names_disjoint_counterexample:
  "search_and_add_to_playlist ex_yt_quota ''P'' [ex_track_a, ex_track_b, ex_track_c] 3 2 ex_world
     = Inr ex_overlap
   \<and> ''Intro'' \<in> set (processed ex_overlap)
   \<and> ''Intro'' \<in> name ` set (remaining ex_overlap)"
  by code_simp

section \<open>Tracks that are skipped\<close>

text \<open>
  C1, as the code has it. A track whose search returns no item costs one search request
  and nothing else: no append call is made, nothing is added to the processed names,
  nothing is saved and nothing is slept; the retry loop is left in its first pass, whatever
  the retry budget is, and the \<^verbatim>\<open>for\<close> loop goes on with the next track. The track
  is not removed from \<^verbatim>\<open>remaining_tracks\<close>: the list is the same after the skip.
  And so for the whole run: when the loop, having gone through the tracks \<open>before\<close>,
  comes to such a track and the function returns, the track is among the remaining tracks
  at the return, whatever happened to the tracks after it; the progress file is then the
  one of the start or holds the final lists, the track among them; and if the names at
  the start are pairwise distinct and none of them processed, the name of the track is
  not among the processed names at the return.
\<close>

theorem not_found_skip:
  assumes "0 < max_retries"
    and "search_list yt (search_calls s) (query_of t) = Returns []"
  shows "while_retry yt pid max_retries delay t 0 s =
           (Break, s\<lparr>search_calls := Suc (search_calls s),
                      calls := calls s @ [Search_list (query_of t)]\<rparr>)
         \<and> for_tracks yt pid max_retries delay (t # ts) s =
             for_tracks yt pid max_retries delay ts
               (s\<lparr>search_calls := Suc (search_calls s),
                  calls := calls s @ [Search_list (query_of t)]\<rparr>)
         \<and> (load_progress w = Inr loaded
              \<and> remaining (start_run pid tracks loaded w) = before @ t # ts
              \<and> for_tracks yt pid max_retries delay before (start_run pid tracks loaded w)
                  = (Break, s)
              \<and> search_and_add_to_playlist yt pid tracks max_retries delay w = Inr s' \<longrightarrow>
             t \<in> set (remaining s')
             \<and> (progress_file s' = progress_file w
                \<or> progress_file s' =
                    Some (Json \<lparr>playlist_id = pid, processed_tracks = processed s',
                                 remaining_tracks = remaining s'\<rparr>))
             \<and> (distinct (map name (remaining (start_run pid tracks loaded w)))
                  \<and> set (processed (start_run pid tracks loaded w))
                      \<inter> name ` set (remaining (start_run pid tracks loaded w)) = {}
                 \<longrightarrow> name t \<notin> set (processed s')))"
proof (intro conjI impI)
  show wr: "while_retry yt pid max_retries delay t 0 s =
           (Break, s\<lparr>search_calls := Suc (search_calls s),
                      calls := calls s @ [Search_list (query_of t)]\<rparr>)"
    using assms by (rule while_retry_no_hits)
  then show "for_tracks yt pid max_retries delay (t # ts) s =
             for_tracks yt pid max_retries delay ts
               (s\<lparr>search_calls := Suc (search_calls s),
                  calls := calls s @ [Search_list (query_of t)]\<rparr>)"
    by simp
  have k: "kept s (s\<lparr>search_calls := Suc (search_calls s),
                      calls := calls s @ [Search_list (query_of t)]\<rparr>)"
    by (simp add: kept_def)
  assume a: "load_progress w = Inr loaded
              \<and> remaining (start_run pid tracks loaded w) = before @ t # ts
              \<and> for_tracks yt pid max_retries delay before (start_run pid tracks loaded w)
                  = (Break, s)
              \<and> search_and_add_to_playlist yt pid tracks max_retries delay w = Inr s'"
  then have r: "t \<in> set (remaining s')
         \<and> (progress_file s' = progress_file w
            \<or> progress_file s' =
                Some (Json \<lparr>playlist_id = pid, processed_tracks = processed s',
                             remaining_tracks = remaining s'\<rparr>))
         \<and> (distinct (map name (remaining (start_run pid tracks loaded w)))
              \<and> set (processed (start_run pid tracks loaded w))
                  \<inter> name ` set (remaining (start_run pid tracks loaded w)) = {}
             \<longrightarrow> name t \<notin> set (processed s'))"
    using run_keeps_skipped [OF _ _ _ wr k, of w loaded tracks before ts s'] by simp
  from r show "t \<in> set (remaining s')" by simp
  from r show "progress_file s' = progress_file w
            \<or> progress_file s' =
                Some (Json \<lparr>playlist_id = pid, processed_tracks = processed s',
                             remaining_tracks = remaining s'\<rparr>)" by simp
  assume "distinct (map name (remaining (start_run pid tracks loaded w)))
              \<and> set (processed (start_run pid tracks loaded w))
                  \<inter> name ` set (remaining (start_run pid tracks loaded w)) = {}"
  with r show "name t \<notin> set (processed s')" by simp
qed

theorem not_found_skip_witness:
  "search_list ex_yt_unfound 1 (query_of ex_track_a) = Returns []
   \<and> while_retry ex_yt_unfound ''P'' 3 2 ex_track_a 0 ex_after_b =
       (Break, ex_after_b\<lparr>search_calls := 2,
                 calls := calls ex_after_b @ [Search_list ''Intro Ann Bob'']\<rparr>)
   \<and> search_and_add_to_playlist ex_yt_unfound ''P'' [ex_track_b, ex_track_a, ex_song 0] 3 2
        ex_world = Inr ex_left_a
   \<and> ex_track_a \<in> set (remaining ex_left_a)
   \<and> progress_file ex_left_a =
        Some (Json \<lparr>playlist_id = ''P'', processed_tracks = processed ex_left_a,
                     remaining_tracks = remaining ex_left_a\<rparr>)
   \<and> name ex_track_a \<notin> set (processed ex_left_a)"
proof -
  have l: "load_progress ex_world = Inr None"
    by (simp add: load_progress_def ex_world_def)
  have r: "remaining (start_run ''P'' [ex_track_b, ex_track_a, ex_song 0] None ex_world) =
             [ex_track_b] @ ex_track_a # [ex_song 0]"
    and p: "processed (start_run ''P'' [ex_track_b, ex_track_a, ex_song 0] None ex_world) = []"
    by (simp_all add: start_run_fresh)
  have b: "for_tracks ex_yt_unfound ''P'' 3 2 [ex_track_b]
             (start_run ''P'' [ex_track_b, ex_track_a, ex_song 0] None ex_world) =
           (Break, ex_after_b)"
    by code_simp
  have s: "search_list ex_yt_unfound (search_calls ex_after_b) (query_of ex_track_a) = Returns []"
    by code_simp
  have run: "search_and_add_to_playlist ex_yt_unfound ''P''
               [ex_track_b, ex_track_a, ex_song 0] 3 2 ex_world = Inr ex_left_a"
    by code_simp
  have d: "distinct (map name [ex_track_b, ex_track_a, ex_song 0])"
    by code_simp
  have f: "progress_file ex_left_a \<noteq> progress_file ex_world"
    by (simp add: ex_left_a_def ex_world_def)
  have c: "search_calls ex_after_b = 1" "query_of ex_track_a = ''Intro Ann Bob''"
    by (simp_all add: ex_after_b_def query_of_def ex_track_a_def)
  show ?thesis
    using not_found_skip [where max_retries = 3 and yt = ex_yt_unfound and s = ex_after_b
            and t = ex_track_a and pid = "''P''" and delay = 2 and ts = "[ex_song 0]"
            and w = ex_world and loaded = None
            and tracks = "[ex_track_b, ex_track_a, ex_song 0]" and before = "[ex_track_b]"
            and s' = ex_left_a]
          l r p b s run d f c
    by simp
qed

text \<open>
  C1 as stated fails: after a run over the single track \<open>ex_track_a\<close>, for which the
  destination finds nothing, the track is still in the remaining ones.
\<close>

theorem not_found_removed_counterexample:
  "search_and_add_to_playlist ex_yt_no_hits ''P'' [ex_track_a] 3 2 ex_world =
     Inr \<lparr>progress_file = None, search_calls = 1, insert_calls = 0,
          calls = [Search_list ''Intro Ann Bob''], processed = [],
          remaining = [ex_track_a]\<rparr>"
  by code_simp




section \<open>The progress file at the end of a run\<close>

text \<open>
  C6. The progress file is deleted exactly when the remaining tracks have become empty.
  Whenever the function returns with no remaining track, the file is absent; whenever it
  returns with a remaining track, the file has not been deleted: it is there if it was
  there at the start, if a track was added during the run, or if the run was stopped by
  the quota. A run in which every track
  is found and appended ends with no remaining track and without the file; a run stopped
  by the quota ends with remaining tracks and with the file, which holds the final split.
\<close>

theorem progress_file_cleanup:
  "(search_and_add_to_playlist yt pid tracks max_retries delay w = Inr s'
    \<and> load_progress w = Inr loaded \<longrightarrow>
      (remaining s' = [] \<longrightarrow> progress_file s' = None)
      \<and> (remaining s' \<noteq> []
          \<and> (progress_file w \<noteq> None \<or> quota_stop yt pid tracks max_retries delay w
              \<or> processed s' \<noteq> processed (start_run pid tracks loaded w))
           \<longrightarrow> progress_file s' \<noteq> None))
   \<and> (0 < max_retries \<and> 0 \<le> delay \<and> load_progress w = Inr loaded
       \<and> adds_all yt pid (remaining (start_run pid tracks loaded w))
            (search_calls w) (insert_calls w) \<longrightarrow>
       (\<exists>s1. search_and_add_to_playlist yt pid tracks max_retries delay w = Inr s1
              \<and> remaining s1 = [] \<and> progress_file s1 = None))
   \<and> (quota_stop yt pid tracks max_retries delay w \<longrightarrow>
       (\<exists>s1. search_and_add_to_playlist yt pid tracks max_retries delay w = Inr s1
              \<and> remaining s1 \<noteq> []
              \<and> progress_file s1 =
                   Some (Json \<lparr>playlist_id = pid, processed_tracks = processed s1,
                                remaining_tracks = remaining s1\<rparr>)))"
proof (intro conjI impI)
  assume run: "search_and_add_to_playlist yt pid tracks max_retries delay w = Inr s'
    \<and> load_progress w = Inr loaded"
  then have l: "load_progress w = Inr loaded"
    and rl: "run_loop yt pid max_retries delay (start_run pid tracks loaded w) = Inr s'"
    by (auto simp: search_and_add_to_playlist_def)
  note eff = run_loop_effect [OF rl]
  { assume "remaining s' = []"
    with eff show "progress_file s' = None" by simp }
  { assume "remaining s' \<noteq> []
          \<and> (progress_file w \<noteq> None \<or> quota_stop yt pid tracks max_retries delay w
              \<or> processed s' \<noteq> processed (start_run pid tracks loaded w))"
    with eff l show "progress_file s' \<noteq> None"
      by (auto simp: progress_file_start_run quota_stop_def Let_def) }
next
  assume a: "0 < max_retries \<and> 0 \<le> delay \<and> load_progress w = Inr loaded
       \<and> adds_all yt pid (remaining (start_run pid tracks loaded w))
            (search_calls w) (insert_calls w)"
  define s0 where "s0 = start_run pid tracks loaded w"
  from a have "adds_all yt pid (remaining s0) (search_calls s0) (insert_calls s0)"
    by (simp add: s0_def search_calls_start_run insert_calls_start_run)
  from for_tracks_adds_all [OF _ this refl, of max_retries delay] a
  obtain s1 where ft: "for_tracks yt pid max_retries delay (remaining s0) s0 = (Break, s1)"
    and r: "remaining s1 = []"
    by blast
  then have "run_loop yt pid max_retries delay s0 = Inr (finish s1)"
    by (simp add: run_loop_def)
  with a r show "\<exists>s1. search_and_add_to_playlist yt pid tracks max_retries delay w = Inr s1
              \<and> remaining s1 = [] \<and> progress_file s1 = None"
    by (simp add: search_and_add_to_playlist_def s0_def finish_def unlink_progress_def)
next
  assume q: "quota_stop yt pid tracks max_retries delay w"
  then obtain loaded' where l: "load_progress w = Inr loaded'"
    and ft: "fst (for_tracks yt pid max_retries delay
               (remaining (start_run pid tracks loaded' w)) (start_run pid tracks loaded' w)) = Return"
    by (auto simp: quota_stop_def Let_def split: sum.splits)
  have rl: "run_loop yt pid max_retries delay (start_run pid tracks loaded' w) =
              Inr (snd (for_tracks yt pid max_retries delay
                     (remaining (start_run pid tracks loaded' w)) (start_run pid tracks loaded' w)))"
    using ft
    by (cases "for_tracks yt pid max_retries delay
                 (remaining (start_run pid tracks loaded' w)) (start_run pid tracks loaded' w)")
       (simp add: run_loop_def)
  from run_loop_effect [OF rl] ft l rl
  show "\<exists>s1. search_and_add_to_playlist yt pid tracks max_retries delay w = Inr s1
              \<and> remaining s1 \<noteq> []
              \<and> progress_file s1 =
                   Some (Json \<lparr>playlist_id = pid, processed_tracks = processed s1,
                                remaining_tracks = remaining s1\<rparr>)"
    by (simp add: search_and_add_to_playlist_def)
qed


theorem progress_file_cleanup_witness:
  "adds_all ex_yt_quota ''P'' [ex_track_a, ex_track_b] 0 0
   \<and> (\<exists>s1. search_and_add_to_playlist ex_yt_quota ''P'' [ex_track_a, ex_track_b] 3 2 ex_world
              = Inr s1
            \<and> remaining s1 = [] \<and> progress_file s1 = None)
   \<and> quota_stop ex_yt_quota ''P'' [ex_track_a, ex_track_b, ex_track_c] 3 2 ex_world
   \<and> (\<exists>s1. search_and_add_to_playlist ex_yt_quota ''P''
                [ex_track_a, ex_track_b, ex_track_c] 3 2 ex_world = Inr s1
            \<and> remaining s1 \<noteq> []
            \<and> progress_file s1 =
                 Some (Json \<lparr>playlist_id = ''P'', processed_tracks = processed s1,
                              remaining_tracks = remaining s1\<rparr>))"
proof -
  have a: "adds_all ex_yt_quota ''P'' [ex_track_a, ex_track_b] 0 0"
    by code_simp
  have q: "quota_stop ex_yt_quota ''P'' [ex_track_a, ex_track_b, ex_track_c] 3 2 ex_world"
    by code_simp
  have l: "load_progress ex_world = Inr None"
    by (simp add: load_progress_def ex_world_def)
  have r: "remaining (start_run ''P'' [ex_track_a, ex_track_b] None ex_world) =
             [ex_track_a, ex_track_b]"
    by (simp add: start_run_fresh)
  have c: "search_calls ex_world = 0" "insert_calls ex_world = 0"
    by (simp_all add: ex_world_def)
  show ?thesis
    using progress_file_cleanup [where yt = ex_yt_quota and pid = "''P''"
            and tracks = "[ex_track_a, ex_track_b]" and max_retries = 3 and delay = 2
            and w = ex_world and loaded = None]
          progress_file_cleanup [where yt = ex_yt_quota and pid = "''P''"
            and tracks = "[ex_track_a, ex_track_b, ex_track_c]" and max_retries = 3
            and delay = 2 and w = ex_world]
          a q l r c
    by simp
qed

section \<open>The playlist resolver: cases\<close>

text \<open>
  C8. When an id is given (not \<^verbatim>\<open>None\<close> and not empty), the name plays no part: the
  result is that of the call without a name, and the one request made is the lookup of
  the id. When the destination reports no playlist for the id, the call fails with the
  \<^verbatim>\<open>ValueError\<close> of line 137 after that single lookup: nothing is retried and nothing is
  created; through \<^verbatim>\<open>transfer_playlist\<close> the error ends the whole run. When only a
  name is given, one playlist is created with that title, the description and the privacy
  status \<open>private\<close>, and what the destination returns for it is the result. When
  neither is given, \<^verbatim>\<open>ValueError\<close> is raised and no request is made.
\<close>

theorem resolver_cases:
  "(truthy playlist_ident \<longrightarrow>
      create_or_get_youtube_playlist yt playlist_name playlist_ident description w =
        create_or_get_youtube_playlist yt None playlist_ident description w
      \<and> calls (snd (create_or_get_youtube_playlist yt playlist_name playlist_ident description w))
          = calls w @ [Playlists_list (the playlist_ident)])
   \<and> (i \<noteq> [] \<and> playlists_list yt i = Returns [] \<longrightarrow>
        create_or_get_youtube_playlist yt playlist_name (Some i) description w =
          (Inl (ValueError (''No playlist found with ID: '' @ i)),
           w\<lparr>calls := calls w @ [Playlists_list i]\<rparr>))
   \<and> (i \<noteq> [] \<and> playlists_list yt i = Returns (p # ps) \<longrightarrow>
        create_or_get_youtube_playlist yt playlist_name (Some i) description w =
          (Inr p, w\<lparr>calls := calls w @ [Playlists_list i]\<rparr>))
   \<and> (\<not> truthy playlist_ident \<and> n \<noteq> []
        \<and> playlists_insert yt n description ''private'' = Returns p \<longrightarrow>
        create_or_get_youtube_playlist yt (Some n) playlist_ident description w =
          (Inr p, w\<lparr>calls := calls w @ [Playlists_insert n description ''private'']\<rparr>))
   \<and> (\<not> truthy playlist_ident \<and> \<not> truthy playlist_name \<longrightarrow>
        create_or_get_youtube_playlist yt playlist_name playlist_ident description w =
          (Inl (ValueError ''Either playlist_name or playlist_id must be provided''), w))
   \<and> (i \<noteq> [] \<and> playlists_list yt i = Returns [] \<and> load_progress v = Inr None
        \<and> (truthy spotify_playlist_id \<or> spotify_liked_songs)
        \<and> get_spotify_tracks sp spotify_playlist_id spotify_liked_songs = Some (Inr tracks) \<longrightarrow>
        transfer_playlist yt sp spotify_playlist_id playlist_name (Some i)
          spotify_liked_songs v =
          Some (Inl (ValueError (''No playlist found with ID: '' @ i))))"
  by (simp add: create_or_get_youtube_playlist_def transfer_playlist_def Let_def
           split: outcome.splits list.splits)

lemma ex_sp_tracks: "get_spotify_tracks ex_sp None True = Some (Inr [ex_track_c])"
  by code_simp

theorem resolver_cases_witness:
  "create_or_get_youtube_playlist ex_yt_quota (Some ''Mix'') (Some ''OLD'') ''d'' ex_world =
     (Inr \<lparr>ident = ''OLD''\<rparr>, ex_world\<lparr>calls := [Playlists_list ''OLD'']\<rparr>)
   \<and> create_or_get_youtube_playlist ex_yt_quota (Some ''Mix'') (Some ''GONE'') ''d'' ex_world =
     (Inl (ValueError ''No playlist found with ID: GONE''),
      ex_world\<lparr>calls := [Playlists_list ''GONE'']\<rparr>)
   \<and> create_or_get_youtube_playlist ex_yt_quota (Some ''Mix'') None ''d'' ex_world =
     (Inr \<lparr>ident = ''NEW''\<rparr>, ex_world\<lparr>calls := [Playlists_insert ''Mix'' ''d'' ''private'']\<rparr>)
   \<and> create_or_get_youtube_playlist ex_yt_quota None (Some '''') ''d'' ex_world =
     (Inl (ValueError ''Either playlist_name or playlist_id must be provided''), ex_world)
   \<and> transfer_playlist ex_yt_quota ex_sp None (Some ''Mix'') (Some ''GONE'') True ex_world =
     Some (Inl (ValueError ''No playlist found with ID: GONE''))"
proof -
  have l: "load_progress ex_world = Inr None"
    by (simp add: load_progress_def ex_world_def)
  have y: "playlists_list ex_yt_quota ''OLD'' = Returns [\<lparr>ident = ''OLD''\<rparr>]"
    "playlists_list ex_yt_quota ''GONE'' = Returns []"
    "playlists_insert ex_yt_quota ''Mix'' ''d'' ''private'' = Returns \<lparr>ident = ''NEW''\<rparr>"
    by (simp_all add: ex_yt_quota_def)
  show ?thesis
    using resolver_cases [where yt = ex_yt_quota and playlist_name = "Some ''Mix''"
            and playlist_ident = "Some ''OLD''" and i = "''OLD''" and description = "''d''"
            and w = ex_world and p = "\<lparr>ident = ''OLD''\<rparr>" and ps = "[]"]
          resolver_cases [where yt = ex_yt_quota and playlist_name = "Some ''Mix''"
            and playlist_ident = "Some ''GONE''"
            and i = "''GONE''" and description = "''d''" and w = ex_world and v = ex_world
            and sp = ex_sp and spotify_playlist_id = None and spotify_liked_songs = True
            and tracks = "[ex_track_c]"]
          resolver_cases [where yt = ex_yt_quota and playlist_ident = None and n = "''Mix''"
            and description = "''d''" and w = ex_world and p = "\<lparr>ident = ''NEW''\<rparr>"]
          resolver_cases [where yt = ex_yt_quota and playlist_ident = "Some []"
            and playlist_name = None and description = "''d''" and w = ex_world]
          l y ex_sp_tracks
    by (simp add: ex_world_def)
qed

section \<open>Resuming\<close>

lemma create_or_get_world:
  "create_or_get_youtube_playlist yt playlist_name playlist_ident description w = (r, w1) \<Longrightarrow>
   progress_file w1 = progress_file w \<and> search_calls w1 = search_calls w
   \<and> insert_calls w1 = insert_calls w"
  by (auto simp: create_or_get_youtube_playlist_def Let_def
           split: if_splits outcome.splits list.splits)

text \<open>
  C4, as the code has it. In \<^verbatim>\<open>search_and_add_to_playlist\<close>, a record whose playlist id
  equals the playlist id of the call makes the loop start from the processed names and
  the remaining tracks of the record; with no record, or with a record for another playlist
  id, the loop starts with no processed names from the tracks given to the call.
  \<^verbatim>\<open>transfer_playlist\<close>, however, does not compare the record with the destination
  it is called with: whenever a record exists, it takes the playlist id and the remaining
  tracks from the record, extracts nothing, and so always resumes from the record, towards
  the playlist of the record. Only when no record exists does it start afresh: the loop
  then starts with no processed names from the extracted tracks, towards the playlist that
  the resolver has returned.
\<close>

theorem resume_rule:
  "(load_progress w = Inr (Some r) \<and> playlist_id r = pid \<longrightarrow>
      search_and_add_to_playlist yt pid tracks max_retries delay w =
        run_loop yt pid max_retries delay
          \<lparr>progress_file = progress_file w, search_calls = search_calls w,
           insert_calls = insert_calls w, calls = calls w,
           processed = processed_tracks r, remaining = remaining_tracks r\<rparr>)
   \<and> (load_progress w = Inr loaded \<and> map_option playlist_id loaded \<noteq> Some pid \<longrightarrow>
      search_and_add_to_playlist yt pid tracks max_retries delay w =
        run_loop yt pid max_retries delay
          \<lparr>progress_file = progress_file w, search_calls = search_calls w,
           insert_calls = insert_calls w, calls = calls w,
           processed = [], remaining = tracks\<rparr>)
   \<and> (load_progress w = Inr (Some r)
       \<and> (truthy youtube_playlist_name \<or> truthy youtube_playlist_id)
       \<and> (truthy spotify_playlist_id \<or> spotify_liked_songs) \<longrightarrow>
      transfer_playlist yt sp spotify_playlist_id youtube_playlist_name youtube_playlist_id
        spotify_liked_songs w =
        Some (run_loop yt (playlist_id r) 3 2
          \<lparr>progress_file = progress_file w, search_calls = search_calls w,
           insert_calls = insert_calls w, calls = calls w,
           processed = processed_tracks r, remaining = remaining_tracks r\<rparr>))
   \<and> (load_progress w = Inr None
       \<and> (truthy youtube_playlist_name \<or> truthy youtube_playlist_id)
       \<and> (truthy spotify_playlist_id \<or> spotify_liked_songs)
       \<and> get_spotify_tracks sp spotify_playlist_id spotify_liked_songs = Some (Inr extracted)
       \<and> create_or_get_youtube_playlist yt youtube_playlist_name youtube_playlist_id
             ''Imported from Spotify'' w = (Inr pl, w1) \<longrightarrow>
      transfer_playlist yt sp spotify_playlist_id youtube_playlist_name youtube_playlist_id
        spotify_liked_songs w =
        Some (run_loop yt (ident pl) 3 2
          \<lparr>progress_file = None, search_calls = search_calls w,
           insert_calls = insert_calls w, calls = calls w1,
           processed = [], remaining = extracted\<rparr>))"
proof (intro conjI impI)
  assume a: "load_progress w = Inr None
       \<and> (truthy youtube_playlist_name \<or> truthy youtube_playlist_id)
       \<and> (truthy spotify_playlist_id \<or> spotify_liked_songs)
       \<and> get_spotify_tracks sp spotify_playlist_id spotify_liked_songs = Some (Inr extracted)
       \<and> create_or_get_youtube_playlist yt youtube_playlist_name youtube_playlist_id
             ''Imported from Spotify'' w = (Inr pl, w1)"
  then have f: "progress_file w = None"
    by (simp add: load_progress_None)
  from a have w1: "progress_file w1 = progress_file w" "search_calls w1 = search_calls w"
    "insert_calls w1 = insert_calls w"
    by (auto dest: create_or_get_world)
  with f have "load_progress w1 = Inr None"
    by (simp add: load_progress_None)
  then have "search_and_add_to_playlist yt (ident pl) extracted 3 2 w1 =
        run_loop yt (ident pl) 3 2
          \<lparr>progress_file = None, search_calls = search_calls w,
           insert_calls = insert_calls w, calls = calls w1,
           processed = [], remaining = extracted\<rparr>"
    using w1 f by (simp add: search_and_add_to_playlist_def start_run_fresh)
  with a show "transfer_playlist yt sp spotify_playlist_id youtube_playlist_name
        youtube_playlist_id spotify_liked_songs w =
        Some (run_loop yt (ident pl) 3 2
          \<lparr>progress_file = None, search_calls = search_calls w,
           insert_calls = insert_calls w, calls = calls w1,
           processed = [], remaining = extracted\<rparr>)"
    by (auto simp: transfer_playlist_def)
qed (auto simp: search_and_add_to_playlist_def transfer_playlist_def start_run_fresh
                start_run_resume)

theorem resume_rule_witness:
  "load_progress ex_world_old = Inr (Some ex_old_progress)
   \<and> search_and_add_to_playlist ex_yt_quota ''OLD'' [ex_track_c] 3 2 ex_world_old =
       run_loop ex_yt_quota ''OLD'' 3 2
         \<lparr>progress_file = Some (Json ex_old_progress), search_calls = 0, insert_calls = 0,
          calls = [], processed = [''Intro''], remaining = [ex_track_b]\<rparr>
   \<and> search_and_add_to_playlist ex_yt_quota ''NEW'' [ex_track_c] 3 2 ex_world_old =
       run_loop ex_yt_quota ''NEW'' 3 2
         \<lparr>progress_file = Some (Json ex_old_progress), search_calls = 0, insert_calls = 0,
          calls = [], processed = [], remaining = [ex_track_c]\<rparr>
   \<and> transfer_playlist ex_yt_quota ex_sp None None (Some ''NEW'') True ex_world_old =
       Some (run_loop ex_yt_quota ''OLD'' 3 2
         \<lparr>progress_file = Some (Json ex_old_progress), search_calls = 0, insert_calls = 0,
          calls = [], processed = [''Intro''], remaining = [ex_track_b]\<rparr>)
   \<and> transfer_playlist ex_yt_quota ex_sp None (Some ''Mix'') None True ex_world =
       Some (run_loop ex_yt_quota ''NEW'' 3 2
         \<lparr>progress_file = None, search_calls = 0, insert_calls = 0,
          calls = [Playlists_insert ''Mix'' ''Imported from Spotify'' ''private''],
          processed = [], remaining = [ex_track_c]\<rparr>)"
  using resume_rule [where w = ex_world and yt = ex_yt_quota and sp = ex_sp
          and spotify_playlist_id = None and youtube_playlist_name = "Some ''Mix''"
          and youtube_playlist_id = None and spotify_liked_songs = True
          and extracted = "[ex_track_c]" and pl = "\<lparr>ident = ''NEW''\<rparr>"
          and ?w1.0 = "ex_world\<lparr>calls := [Playlists_insert ''Mix'' ''Imported from Spotify''
                                          ''private'']\<rparr>"]
        ex_sp_tracks
        resume_rule [where w = ex_world_old and r = ex_old_progress and pid = "''OLD''"
          and yt = ex_yt_quota and tracks = "[ex_track_c]" and max_retries = 3 and delay = 2
          and sp = ex_sp and spotify_playlist_id = None and youtube_playlist_name = None
          and youtube_playlist_id = "Some ''NEW''" and spotify_liked_songs = True]
        resume_rule [where w = ex_world_old and loaded = "Some ex_old_progress"
          and pid = "''NEW''" and yt = ex_yt_quota and tracks = "[ex_track_c]"
          and max_retries = 3 and delay = 2]
  by (simp add: ex_world_old_def ex_world_def load_progress_def ex_old_progress_def
        create_or_get_youtube_playlist_def ex_yt_quota_def)

text \<open>
  C4 as stated fails: with the record \<open>ex_old_progress\<close> for the playlist \<open>OLD\<close> in
  the file, a transfer of the saved tracks (the single track \<open>ex_track_c\<close>) to the
  playlist \<open>NEW\<close> does not start afresh from the extracted tracks: it resumes from the
  record, appends its remaining track to \<open>OLD\<close> and never searches for \<open>ex_track_c\<close>.
\<close>

theorem stale_record_counterexample:
  "get_spotify_tracks ex_sp None True = Some (Inr [ex_track_c])
   \<and> playlist_id ex_old_progress \<noteq> ''NEW''
   \<and> transfer_playlist ex_yt_quota ex_sp None None (Some ''NEW'') True ex_world_old =
       Some (Inr \<lparr>progress_file = None, search_calls = 1, insert_calls = 1,
                  calls = [Search_list ''Blue Cy'', Playlist_items_insert ''OLD'' ''vid'', Sleep 2],
                  processed = [''Intro'', ''Blue''], remaining = []\<rparr>)"
  by code_simp

section \<open>The track extractor: paging\<close>

lemma for_items_append: "for_items (xs @ ys) acc = for_items ys (for_items xs acc)"
  by (induction xs arbitrary: acc) (auto split: option.splits sum.splits)

lemma items_serve: "items (serve limit coll xs offset) = take limit (drop offset xs)"
  by (simp add: serve_def)

lemma next_link_serve:
  "next_link (serve limit coll xs offset) =
     (if offset + limit < length xs then Some (coll, offset + limit) else None)"
  by (simp add: serve_def)

lemma while_results_playlist:
  assumes "playlists pid = Some xs"
  shows "while_results (spotify_client saved playlists) False
           (Some (serve 100 (Some pid) xs offset)) acc =
         Some (Inr (for_items (drop offset xs) acc))"
proof (induction "length xs - offset" arbitrary: offset acc rule: less_induct)
  case less
  show ?case
  proof (cases "offset + 100 < length xs")
    case True
    have nx: "next_page (spotify_client saved playlists) (serve 100 (Some pid) xs offset) =
                Returns (Some (serve 100 (Some pid) xs (offset + 100)))"
      using True assms
      by (simp add: spotify_client_def next_link_serve request_def collection_def limit_of_def)
    have "length xs - (offset + 100) < length xs - offset"
      using True by simp
    note ih = less [OF this]
    have split: "drop offset xs = take 100 (drop offset xs) @ drop (offset + 100) xs"
      by (metis add.commute append_take_drop_id drop_drop)
    have "while_results (spotify_client saved playlists) False
            (Some (serve 100 (Some pid) xs offset)) acc =
          while_results (spotify_client saved playlists) False
            (Some (serve 100 (Some pid) xs (offset + 100)))
            (for_items (take 100 (drop offset xs)) acc)"
      by (subst while_results.simps) (simp add: nx Let_def items_serve next_link_serve True)
    also have "\<dots> = Some (Inr (for_items (drop (offset + 100) xs)
                                 (for_items (take 100 (drop offset xs)) acc)))"
      by (rule ih)
    also have "\<dots> = Some (Inr (for_items (drop offset xs) acc))"
      by (subst (2) split) (simp only: for_items_append)
    finally show ?thesis .
  next
    case False
    then have "take 100 (drop offset xs) = drop offset xs"
      by simp
    with False show ?thesis
      by (subst while_results.simps, subst while_results.simps)
         (simp add: items_serve next_link_serve Let_def)
  qed
qed

lemma playlist_mode_complete:
  assumes "playlists pid = Some xs"
  shows "get_spotify_tracks (spotify_client saved playlists) (Some pid) False =
           Some (Inr (for_items xs []))"
  using while_results_playlist [of playlists pid xs saved 0 "[]"] assms
  by (simp add: get_spotify_tracks_def spotify_client_def request_def collection_def limit_of_def)

lemma length_for_items:
  "list_all has_fields xs \<Longrightarrow> length (for_items xs acc) = length acc + length xs"
  by (induction xs arbitrary: acc) (auto split: option.splits sum.splits)

lemma saved_request:
  "current_user_saved_tracks (spotify_client xs playlists) offset =
     Returns (serve 20 None xs offset)"
  by (simp add: spotify_client_def request_def collection_def limit_of_def)

lemma while_results_liked:
  assumes "list_all has_fields xs"
  shows "while_results (spotify_client xs playlists) True
           (Some (serve 20 None xs (length acc))) acc =
         Some (Inr (for_items (drop (length acc) xs) acc))"
proof (induction "length xs - length acc" arbitrary: acc rule: less_induct)
  case less
  define offset where "offset = length acc"
  have all: "list_all has_fields (take 20 (drop offset xs))"
    using assms by (auto simp: list_all_iff dest: in_set_takeD in_set_dropD)
  show ?case
  proof (cases "offset + 20 < length xs")
    case True
    define acc' where "acc' = for_items (take 20 (drop offset xs)) acc"
    have len: "length acc' = offset + 20"
      using True length_for_items [OF all, of acc] by (simp add: acc'_def offset_def)
    note nx = saved_request [of xs playlists "length acc'"]
    have "length xs - length acc' < length xs - length acc"
      using True len by (simp add: offset_def)
    note ih = less [OF this]
    have split: "drop offset xs = take 20 (drop offset xs) @ drop (offset + 20) xs"
      by (metis add.commute append_take_drop_id drop_drop)
    have "while_results (spotify_client xs playlists) True
            (Some (serve 20 None xs (length acc))) acc =
          while_results (spotify_client xs playlists) True
            (Some (serve 20 None xs (length acc'))) acc'"
      using True
      by (subst while_results.simps)
         (simp add: nx Let_def items_serve next_link_serve offset_def [symmetric]
                    acc'_def [symmetric])
    also have "\<dots> = Some (Inr (for_items (drop (length acc') xs) acc'))"
      by (rule ih)
    also have "\<dots> = Some (Inr (for_items (drop offset xs) acc))"
    proof -
      have "for_items (drop offset xs) acc = for_items (drop (offset + 20) xs) acc'"
        by (subst split) (simp only: for_items_append acc'_def)
      then show ?thesis by (simp add: len)
    qed
    finally show ?thesis by (simp add: offset_def)
  next
    case False
    then have "take 20 (drop offset xs) = drop offset xs"
      by simp
    with False show ?thesis
      by (subst while_results.simps, subst while_results.simps)
         (simp add: items_serve next_link_serve Let_def offset_def)
  qed
qed

lemma liked_mode_complete:
  assumes "list_all has_fields xs"
  shows "get_spotify_tracks (spotify_client xs playlists) None True =
           Some (Inr (for_items xs []))"
  using while_results_liked [OF assms, of playlists "[]"]
  by (simp add: get_spotify_tracks_def saved_request)

lemma for_items_gone: "for_items (replicate n \<lparr>item_track = None\<rparr>) acc = acc"
  by (induction n) simp_all

lemma gone_page:
  "current_user_saved_tracks (spotify_client ex_library_gone playlists) 0 =
     Returns \<lparr>items = replicate 20 \<lparr>item_track = None\<rparr>, next_link = Some (None, 20)\<rparr>"
  by (simp add: spotify_client_def request_def collection_def limit_of_def serve_def
        ex_library_gone_def)

lemma while_results_gone:
  "while_results (spotify_client ex_library_gone playlists) True
     (Some \<lparr>items = replicate 20 \<lparr>item_track = None\<rparr>, next_link = Some (None, 20)\<rparr>) [] = None"
proof (rule ccontr)
  define sp0 where "sp0 = spotify_client ex_library_gone playlists"
  define pg0 where
    "pg0 = \<lparr>items = replicate 20 \<lparr>item_track = None\<rparr>, next_link = Some (None :: string option, 20 :: nat)\<rparr>"
  assume "while_results (spotify_client ex_library_gone playlists) True
     (Some \<lparr>items = replicate 20 \<lparr>item_track = None\<rparr>, next_link = Some (None, 20)\<rparr>) [] \<noteq> None"
  then obtain y where y: "while_results sp0 True (Some pg0) [] = Some y"
    by (auto simp: sp0_def pg0_def)
  have "\<not> (sp0 = sp0 \<and> True \<and> Some pg0 = Some pg0 \<and> ([] :: track list) = [])"
  proof (rule while_results.raw_induct
      [where P = "\<lambda>sp liked res acc z. \<not> (sp = sp0 \<and> liked \<and> res = Some pg0 \<and> acc = [])",
        OF _ y])
    fix f sp liked res acc z
    assume ih: "\<And>sp liked res acc z. f sp liked res acc = Some z \<Longrightarrow>
                  \<not> (sp = sp0 \<and> liked \<and> res = Some pg0 \<and> acc = [])"
      and st: "(case res of None \<Rightarrow> Some (Inr acc)
         | Some pg \<Rightarrow>
             let tracks' = for_items (items pg) acc
             in if next_link pg \<noteq> None
                then if liked
                     then case current_user_saved_tracks sp (length tracks') of
                            Returns r \<Rightarrow> f sp liked (Some r) tracks'
                          | Raises e \<Rightarrow> Some (Inl e)
                     else case next_page sp pg of
                            Returns r \<Rightarrow> f sp liked r tracks'
                          | Raises e \<Rightarrow> Some (Inl e)
                else f sp liked None tracks') = Some z"
    show "\<not> (sp = sp0 \<and> liked \<and> res = Some pg0 \<and> acc = [])"
    proof
      assume a: "sp = sp0 \<and> liked \<and> res = Some pg0 \<and> acc = []"
      with st have "f sp0 True (Some pg0) [] = Some z"
        by (simp add: pg0_def sp0_def for_items_gone gone_page)
      from ih [OF this] show False by simp
    qed
  qed
  then show False by simp
qed

lemma liked_songs_paging_diverges:
  "get_spotify_tracks (spotify_client ex_library_gone (\<lambda>pid. None)) None True = None"
  by (simp add: get_spotify_tracks_def gone_page while_results_gone)

text \<open>
  C7 at a failing input. The library \<open>ex_library\<close> has 21 saved items, the first without
  a track. The loop over the items yields the twenty songs, each once, and so does the
  extraction of the same items as a playlist. The extraction of the saved tracks asks for
  its second page at the offset 19, the number of descriptors so far, and not at 20, the
  number of items read: the descriptor of the song 18 is returned twice.
\<close>

theorem liked_songs_paging_duplicates:
  "get_spotify_tracks (spotify_client ex_library (\<lambda>pid. None)) None True =
     Some (Inr (map ex_song [0..<19] @ [ex_song 18, ex_song 19]))
   \<and> for_items ex_library [] = map ex_song [0..<20]
   \<and> get_spotify_tracks (spotify_client [] (\<lambda>pid. if pid = ''PL'' then Some ex_library else None))
        (Some ''PL'') False = Some (Inr (map ex_song [0..<20]))"
  by code_simp

end
